theory Spec2Isabelle
  imports Complex_Main "HOL-Library.Word" "HOL-Library.Sublist" "HOL-Library.AList"
begin

section \<open>Strings of the program\<close>

text \<open>
  A JavaScript string is a sequence of UTF-16 code units; \<open>length\<close>, \<open>trim\<close>,
  \<open>split\<close> and the regular expressions of \<open>src/rag/chunk.ts\<close> (none has the \<open>u\<close>
  flag) all work on code units.  The chunker is therefore modelled on lists of 16-bit
  words.  Paths, URLs and titles are only compared with ASCII literals by the program,
  so they are modelled as HOL strings.
\<close>

type_synonym jschar = "16 word"
type_synonym jsstring = "jschar list"

text \<open>ECMAScript \<open>LineTerminator\<close>: LF, CR, LS, PS.\<close>

definition isLineTerminator :: "jschar \<Rightarrow> bool" where
  "isLineTerminator c = (c = 0x000A \<or> c = 0x000D \<or> c = 0x2028 \<or> c = 0x2029)"

text \<open>
  The class \<open>\s\<close> and the characters removed by \<open>String.prototype.trim\<close> are the same
  set: \<open>WhiteSpace\<close> (TAB, VT, FF, SP, NBSP, ZWNBSP and the category Zs) together with
  \<open>LineTerminator\<close>.
\<close>

definition isSpace :: "jschar \<Rightarrow> bool" where
  "isSpace c = (c = 0x0009 \<or> c = 0x000B \<or> c = 0x000C \<or> c = 0x0020 \<or> c = 0x00A0
     \<or> c = 0x1680 \<or> (0x2000 \<le> c \<and> c \<le> 0x200A) \<or> c = 0x202F \<or> c = 0x205F
     \<or> c = 0x3000 \<or> c = 0xFEFF \<or> isLineTerminator c)"

definition trim :: "jsstring \<Rightarrow> jsstring" where
  "trim s = rev (dropWhile isSpace (rev (dropWhile isSpace s)))"

section \<open>The chunker (\<open>src/rag/chunk.ts\<close>)\<close>

subsection \<open>Splitting on markdown headings\<close>

text \<open>
  \<open>/^#{1,6}\s+/m\<close> tried at a position that is the start of a line: a run of hashes
  (\<open>0x23\<close>) of length one to six followed by at least one white-space character; the
  match takes the whole white-space run.  A run of seven or more hashes does not match:
  after at most six of them the next character is a hash, not white space.  The result
  is the length of the match.
\<close>

definition matchHeading :: "jsstring \<Rightarrow> nat option" where
  "matchHeading s =
     (let n = length (takeWhile (\<lambda>c. c = 0x23) s);
          w = length (takeWhile isSpace (drop n s))
      in if 1 \<le> n \<and> n \<le> 6 \<and> 1 \<le> w then Some (n + w) else None)"

text \<open>
  \<open>input.split(/^#{1,6}\s+/m)\<close>.  The scan keeps the piece read so far (\<open>cur\<close>) and
  whether the current position starts a line (\<open>bol\<close>: the start of the input, or just
  after a line terminator, which is what \<open>^\<close> means under the \<open>m\<close> flag).  A match
  closes the current piece and the scan resumes after the match; the last piece is
  closed at the end of the input, so the empty input gives one empty piece.
\<close>

function splitHeadings :: "bool \<Rightarrow> jsstring \<Rightarrow> jsstring \<Rightarrow> jsstring list" where
  "splitHeadings bol cur [] = [cur]"
| "splitHeadings bol cur (c # cs) =
     (case (if bol then matchHeading (c # cs) else None) of
        Some n \<Rightarrow>
          cur # splitHeadings (isLineTerminator (last (take n (c # cs)))) [] (drop n (c # cs))
      | None \<Rightarrow> splitHeadings (isLineTerminator c) (cur @ [c]) cs)"
  by pat_completeness auto

lemma matchHeading_pos: "matchHeading s = Some n \<Longrightarrow> 0 < n"
  by (auto simp: matchHeading_def Let_def split: if_splits)

termination splitHeadings
  by (relation "measure (\<lambda>(bol, cur, s). length s)")
     (auto dest: matchHeading_pos split: if_splits)

subsection \<open>Splitting on sentence ends\<close>

text \<open>The characters of the class in \<open>/(?<=[...]\s*)/\<close>, Chinese and Latin.\<close>

definition isTerminator :: "jschar \<Rightarrow> bool" where
  "isTerminator c = (c = 0x3002 \<or> c = 0xFF01 \<or> c = 0xFF1F \<or> c = 0x21 \<or> c = 0x3F
     \<or> c = 0xFF1B \<or> c = 0x3B)"

text \<open>
  \<open>sec.split(/(?<=[...]\s*)/)\<close>.  The expression matches the empty string at every
  position that is preceded by a terminator and then any number of white-space
  characters; \<open>split\<close> cuts at each such position strictly inside the string.  \<open>aft\<close>
  says whether the look-behind holds at the current position: it becomes true after a
  terminator, stays true across white space, and is false at the start and after any
  other character.  Nothing is removed: the pieces concatenate to the section.
\<close>

fun splitSentences :: "bool \<Rightarrow> jsstring \<Rightarrow> jsstring \<Rightarrow> jsstring list" where
  "splitSentences aft cur [] = [cur]"
| "splitSentences aft cur (c # cs) =
     (if aft
      then cur # splitSentences (isTerminator c \<or> isSpace c) [c] cs
      else splitSentences (isTerminator c) (cur @ [c]) cs)"

subsection \<open>\<open>chunkText\<close>\<close>

text \<open>\<open>pushChunk\<close>: the array \<open>chunks\<close> is passed in and returned.\<close>

definition pushChunk :: "jsstring list \<Rightarrow> jsstring \<Rightarrow> jsstring list" where
  "pushChunk chunks s = (if trim s \<noteq> [] then chunks @ [trim s] else chunks)"

text \<open>
  The inner loop over the parts of a long section; the state is the buffer and the
  array of chunks.  \<open>maxLen\<close> is a JavaScript number; the model takes any integer.
\<close>

fun fillBuffer :: "int \<Rightarrow> jsstring list \<Rightarrow> (jsstring \<times> jsstring list) \<Rightarrow> (jsstring \<times> jsstring list)" where
  "fillBuffer maxLen [] (buf, chunks) = (buf, chunks)"
| "fillBuffer maxLen (part # parts) (buf, chunks) =
     (if int (length (buf @ part)) > maxLen
      then fillBuffer maxLen parts (part, pushChunk chunks buf)
      else fillBuffer maxLen parts (buf @ part, chunks))"

text \<open>The body of the outer loop, for one section.\<close>

definition chunkSection :: "int \<Rightarrow> jsstring list \<Rightarrow> jsstring \<Rightarrow> jsstring list" where
  "chunkSection maxLen chunks sec =
     (if int (length sec) \<le> maxLen then pushChunk chunks sec
      else (case fillBuffer maxLen (splitSentences False [] sec) ([], chunks) of
              (buf, chunks') \<Rightarrow> pushChunk chunks' buf))"

text \<open>
  The sections: the pieces between headings, trimmed, the empty ones dropped
  (\<open>filter(Boolean)\<close>); the loop runs over \<open>[input]\<close> when no section is left.
\<close>

definition sections :: "jsstring \<Rightarrow> jsstring list" where
  "sections input = filter (\<lambda>s. s \<noteq> []) (map trim (splitHeadings True [] input))"

definition loopSections :: "jsstring \<Rightarrow> jsstring list" where
  "loopSections input = (if sections input \<noteq> [] then sections input else [input])"

definition chunkText :: "jsstring \<Rightarrow> int \<Rightarrow> jsstring list" where
  "chunkText input maxLen = foldl (chunkSection maxLen) [] (loopSections input)"


section \<open>Helpers on ASCII strings\<close>

text \<open>\<open>s.includes(pat)\<close>; \<open>s.startsWith(pat)\<close> is \<^const>\<open>prefix\<close> and \<open>s.endsWith(pat)\<close> is \<^const>\<open>suffix\<close>.\<close>

fun includes' :: "string \<Rightarrow> string \<Rightarrow> bool" where
  "includes' [] pat = (pat = [])"
| "includes' (c # cs) pat = (prefix pat (c # cs) \<or> includes' cs pat)"

text \<open>
  \<open>s.replace(pat, rep)\<close> with a string pattern: only the first occurrence is replaced.
  (No replacement string of the program contains a dollar sign.)
\<close>

fun replaceFirst :: "string \<Rightarrow> string \<Rightarrow> string \<Rightarrow> string" where
  "replaceFirst [] pat rep = (if pat = [] then rep else [])"
| "replaceFirst (c # cs) pat rep =
     (if prefix pat (c # cs) then rep @ drop (length pat) (c # cs)
      else c # replaceFirst cs pat rep)"

text \<open>
  JavaScript truthiness of an optional string, and \<open>x || d\<close>: an absent and an empty
  string are both falsy.
\<close>

definition truthy :: "string option \<Rightarrow> bool" where
  "truthy x = (case x of None \<Rightarrow> False | Some s \<Rightarrow> s \<noteq> [])"

definition orElse :: "string option \<Rightarrow> string \<Rightarrow> string" where
  "orElse x d = (case x of None \<Rightarrow> d | Some s \<Rightarrow> if s = [] then d else s)"

text \<open>\<open>xs.join(sep)\<close>.\<close>

fun join :: "string \<Rightarrow> string list \<Rightarrow> string" where
  "join sep [] = []"
| "join sep [x] = x"
| "join sep (x # y # ys) = x @ sep @ join sep (y # ys)"

section \<open>The retriever (\<open>src/rag/retriever.ts\<close>)\<close>

subsection \<open>Data\<close>

datatype js_error = Error string | TypeError string

text \<open>
  \<open>MatchMeta\<close> of \<open>utils/schema\<close>: every field is optional; the field \<open>text\<close> is
  written \<open>text'\<close>.
\<close>

record matchMeta =
  text' :: "string option"
  source :: "string option"
  title :: "string option"
  url :: "string option"
  language :: "string option"

text \<open>A match of the vector store; the field \<open>id\<close> is written \<open>id'\<close>.\<close>

record match =
  id' :: string
  score :: real
  metadata :: "matchMeta option"

text \<open>The elements of \<open>metadataResults\<close>: \<open>{ id, metadata }\<close>.\<close>

record metaResult =
  mr_id :: string
  mr_metadata :: "matchMeta option"

text \<open>
  The values that \<open>titleDictionary[t] || t\<close> can produce: a string, or a member that
  the object inherits from \<open>Object.prototype\<close> (a function or an object, named by its
  property name).
\<close>

datatype jsvalue = Str string | Inherited string

text \<open>
  The elements of \<open>sources\<close>: \<open>{ id, url, title, source, hasEnglishVersion }\<close>; the
  first four fields carry the prefix \<open>src_\<close> to keep them apart from those of
  \<open>matchMeta\<close>.  The title is whatever \<open>translateTitleToEnglish\<close> returned.
\<close>

record sourceRec =
  src_id :: string
  src_url :: string
  src_title :: jsvalue
  src_source :: string
  hasEnglishVersion :: bool

text \<open>The value returned by \<open>getRelevantDocuments\<close>.\<close>

record retrieval =
  contexts :: string
  sources :: "sourceRec list"
  matches :: "match list"
  usedFallback :: bool

text \<open>
  The options of \<open>VECTORIZE.query\<close>; \<open>filter'\<close> is the language of
  \<open>filter: { metadata: { language } }\<close>, absent in the fallback query.
\<close>

record queryOpts =
  topK :: int
  returnValues :: bool
  returnMetadata :: string
  filter' :: "string option"

text \<open>
  What the store does with a query: after \<open>latency\<close> milliseconds the promise
  resolves with matches or rejects with an error.  The store is a parameter of the
  model, a function of its own state, the query vector and the options.
\<close>

record queryResponse =
  latency :: nat
  outcome :: "js_error + match list"

type_synonym 's vectorize = "'s \<Rightarrow> real list \<Rightarrow> queryOpts \<Rightarrow> queryResponse \<times> 's"

text \<open>
  The platform class \<open>URL\<close> is a parameter as well: the constructor (\<open>None\<close> when it
  throws), the getter and the setter of \<open>pathname\<close>, and \<open>toString\<close>.
\<close>

record 'u url_api =
  parseURL :: "string \<Rightarrow> 'u option"
  getPathname :: "'u \<Rightarrow> string"
  setPathname :: "'u \<Rightarrow> string \<Rightarrow> 'u"
  urlToString :: "'u \<Rightarrow> string"

text \<open>
  The title dictionary is generated as an object literal
  (\<open>scripts/generate-title-dictionary.ts\<close>); its entries, from Chinese to English
  titles, are the parameter \<open>titleDictionary\<close>.  Reading a property of the object,
  \<open>titleDictionary[key]\<close>, gives the entry of the key when there is one, and otherwise
  the member of that name that every object inherits from \<open>Object.prototype\<close>; only
  for the other keys it gives \<open>undefined\<close>.  An entry written under \<open>__proto__\<close> in
  an object literal with a string value creates no property, so that key always reads
  the inherited member.
\<close>

definition objectPrototypeNames :: "string list" where
  "objectPrototypeNames =
     [''constructor'', ''hasOwnProperty'', ''isPrototypeOf'', ''propertyIsEnumerable'',
      ''toLocaleString'', ''toString'', ''valueOf'', ''__proto__'', ''__defineGetter__'',
      ''__defineSetter__'', ''__lookupGetter__'', ''__lookupSetter__'']"

definition getProperty :: "(string \<rightharpoonup> string) \<Rightarrow> string \<Rightarrow> jsvalue option" where
  "getProperty titleDictionary key =
     (case (if key = ''__proto__'' then None else titleDictionary key) of
        Some s \<Rightarrow> Some (Str s)
      | None \<Rightarrow> if key \<in> set objectPrototypeNames then Some (Inherited key) else None)"

text \<open>
  \<open>translateTitleToEnglish\<close>, generated with the dictionary:
  \<open>titleDictionary[chineseTitle] || chineseTitle\<close>.  An inherited member is truthy; a
  string is truthy unless it is empty.
\<close>

definition translateTitleToEnglish :: "(string \<rightharpoonup> string) \<Rightarrow> string \<Rightarrow> jsvalue" where
  "translateTitleToEnglish titleDictionary chineseTitle =
     (case getProperty titleDictionary chineseTitle of
        None \<Rightarrow> Str chineseTitle
      | Some (Str s) \<Rightarrow> if s = [] then Str chineseTitle else Str s
      | Some (Inherited name) \<Rightarrow> Inherited name)"

subsection \<open>\<open>convertUrlForLanguage\<close>\<close>

text \<open>\<open>pathname.replace(/^\/(zh|en)/, '')\<close>.\<close>

definition stripLangPrefix :: "string \<Rightarrow> string" where
  "stripLangPrefix pathname =
     (if prefix ''/zh'' pathname \<or> prefix ''/en'' pathname then drop 3 pathname else pathname)"

text \<open>The body of the \<open>try\<close> block: only the constructor can throw.\<close>

definition tryConvert :: "'u url_api \<Rightarrow> string \<Rightarrow> string \<Rightarrow> js_error + string" where
  "tryConvert api originalUrl targetLanguage =
     (case parseURL api originalUrl of
        None \<Rightarrow> Inl (TypeError ''Invalid URL'')
      | Some u \<Rightarrow>
          (let pathname = stripLangPrefix (getPathname api u);
               pathname' = (if targetLanguage = ''en'' then ''/en'' @ pathname else pathname)
           in Inr (urlToString api (setPathname api u pathname'))))"

definition convertUrlForLanguage :: "'u url_api \<Rightarrow> string \<Rightarrow> string \<Rightarrow> string" where
  "convertUrlForLanguage api originalUrl targetLanguage =
     (if originalUrl = [] \<or> originalUrl = ''#'' then originalUrl
      else (case tryConvert api originalUrl targetLanguage of
              Inl error \<Rightarrow> originalUrl
            | Inr converted \<Rightarrow> converted))"

subsection \<open>The stages of \<open>getRelevantDocuments\<close>\<close>

definition LANGUAGE_FILTER_TIMEOUT :: nat where
  "LANGUAGE_FILTER_TIMEOUT = 500"

text \<open>Step 2: \<open>m.metadata && m.metadata.text\<close>, then the projection to \<open>{ id, metadata }\<close>.\<close>

definition validMatches :: "match list \<Rightarrow> match list" where
  "validMatches ms =
     filter (\<lambda>m. case metadata m of None \<Rightarrow> False | Some md \<Rightarrow> truthy (text' md)) ms"

definition toMetadataResults :: "match list \<Rightarrow> metaResult list" where
  "toMetadataResults ms = map (\<lambda>m. \<lparr>mr_id = id' m, mr_metadata = metadata m\<rparr>) ms"

text \<open>\<open>r.metadata?.url?.includes('/en/')\<close>.\<close>

definition hasEnglishUrl :: "metaResult \<Rightarrow> bool" where
  "hasEnglishUrl r =
     (case mr_metadata r of
        None \<Rightarrow> False
      | Some md \<Rightarrow> (case url md of None \<Rightarrow> False | Some u \<Rightarrow> includes' u ''/en/''))"

text \<open>
  Step 3, the callback of the filter.  \<open>englishResults\<close> is computed from the whole
  list for every element: the variable \<open>metadataResults\<close> is assigned only when the
  filter has returned.
\<close>

definition keepForLanguage :: "string \<Rightarrow> metaResult list \<Rightarrow> metaResult \<Rightarrow> bool" where
  "keepForLanguage currentLang metadataResults v =
     (case mr_metadata v of
        None \<Rightarrow> False
      | Some md \<Rightarrow>
          (let u = orElse (url md) [] in
           if currentLang = ''en'' then
             (let englishResults = filter hasEnglishUrl metadataResults in
              if length englishResults > 0 then includes' u ''/en/'' else \<not> includes' u ''/en/'')
           else if currentLang = ''zh'' then \<not> includes' u ''/en/''
           else True))"

definition postQueryFilter :: "bool \<Rightarrow> string \<Rightarrow> metaResult list \<Rightarrow> metaResult list" where
  "postQueryFilter fallback currentLang metadataResults =
     (if fallback then filter (keepForLanguage currentLang metadataResults) metadataResults
      else metadataResults)"

text \<open>
  Step 4.  \<open>v.metadata.text\<close> throws a \<open>TypeError\<close> on an element without metadata;
  the texts that are absent or empty are dropped and the rest is joined.
\<close>

definition buildContexts :: "metaResult list \<Rightarrow> js_error + string" where
  "buildContexts metadataResults =
     (if \<exists>v\<in>set metadataResults. mr_metadata v = None
      then Inl (TypeError ''Cannot read properties of undefined'')
      else Inr (join ''\<newline>---\<newline>''
             (map (\<lambda>t. orElse t [])
               (filter (\<lambda>t. truthy t \<and> length (orElse t []) > 0)
                 (map (\<lambda>v. case mr_metadata v of None \<Rightarrow> None | Some md \<Rightarrow> text' md)
                    metadataResults)))))"

text \<open>
  Step 5, the callback of \<open>map\<close>, for an element with its metadata:
  \<open>v.metadata.url || '#'\<close> and \<open>v.metadata.title || v.metadata.source || v.id\<close>.
\<close>

definition originalUrlOf :: "matchMeta \<Rightarrow> string" where
  "originalUrlOf md = orElse (url md) ''#''"

definition originalTitleOf :: "string \<Rightarrow> matchMeta \<Rightarrow> string" where
  "originalTitleOf vid md = orElse (title md) (orElse (source md) vid)"

definition toSource :: "'u url_api \<Rightarrow> (string \<rightharpoonup> string) \<Rightarrow> string \<Rightarrow> string \<Rightarrow> matchMeta \<Rightarrow> sourceRec" where
  "toSource api titleDictionary currentLang vid md =
     (let originalUrl = originalUrlOf md;
          originalTitle = originalTitleOf vid md
      in if currentLang = ''en'' \<and> \<not> includes' originalUrl ''/en/'' then
           (let translatedTitle = translateTitleToEnglish titleDictionary originalTitle in
            if translatedTitle \<noteq> Str originalTitle then
              \<lparr>src_id = vid, src_url = convertUrlForLanguage api originalUrl currentLang,
               src_title = translatedTitle, src_source = orElse (source md) vid,
               hasEnglishVersion = True\<rparr>
            else
              \<lparr>src_id = vid, src_url = originalUrl, src_title = Str originalTitle,
               src_source = orElse (source md) vid, hasEnglishVersion = False\<rparr>)
         else
           \<lparr>src_id = vid, src_url = originalUrl, src_title = Str originalTitle,
            src_source = orElse (source md) vid, hasEnglishVersion = True\<rparr>)"

text \<open>
  Step 5: the filter \<open>v.metadata && (v.metadata.url || v.metadata.title)\<close> and the
  \<open>map\<close> are one pass here (an element is mapped exactly when the filter keeps it),
  followed by the filter on \<open>hasEnglishVersion\<close>.
\<close>

definition buildSources :: "'u url_api \<Rightarrow> (string \<rightharpoonup> string) \<Rightarrow> string \<Rightarrow> metaResult list \<Rightarrow> sourceRec list" where
  "buildSources api titleDictionary currentLang metadataResults =
     filter (\<lambda>src. if currentLang = ''en'' then hasEnglishVersion src else True)
       (List.map_filter
          (\<lambda>v. case mr_metadata v of
                  None \<Rightarrow> None
                | Some md \<Rightarrow>
                    if truthy (url md) \<or> truthy (title md)
                    then Some (toSource api titleDictionary currentLang (mr_id v) md)
                    else None)
          metadataResults)"

text \<open>The loop that removes duplicate sources; the state is \<open>seenUrls\<close> and \<open>uniqueSources\<close>.\<close>

fun dedupLoop :: "sourceRec list \<Rightarrow> string set \<times> sourceRec list \<Rightarrow> string set \<times> sourceRec list" where
  "dedupLoop [] (seenUrls, uniqueSources) = (seenUrls, uniqueSources)"
| "dedupLoop (src # rest) (seenUrls, uniqueSources) =
     (if src_url src \<notin> seenUrls \<and> src_url src \<noteq> ''#''
      then dedupLoop rest (insert (src_url src) seenUrls, uniqueSources @ [src])
      else dedupLoop rest (seenUrls, uniqueSources))"

definition dedupSources :: "sourceRec list \<Rightarrow> sourceRec list" where
  "dedupSources srcs = snd (dedupLoop srcs ({}, []))"

subsection \<open>\<open>getRelevantDocuments\<close>\<close>

text \<open>Everything after the queries, from \<open>queryRes.matches\<close> and \<open>usedFallback\<close>.\<close>

definition processMatches :: "'u url_api \<Rightarrow> (string \<rightharpoonup> string) \<Rightarrow> string \<Rightarrow> bool \<Rightarrow> match list \<Rightarrow> js_error + retrieval" where
  "processMatches api titleDictionary currentLang fallback ms =
     (if length ms = 0
      then Inr \<lparr>contexts = [], sources = [], matches = [], usedFallback = fallback\<rparr>
      else if length (validMatches ms) = 0
      then Inr \<lparr>contexts = [], sources = [], matches = ms, usedFallback = fallback\<rparr>
      else
        (let metadataResults =
               postQueryFilter fallback currentLang (toMetadataResults (validMatches ms))
         in case buildContexts metadataResults of
              Inl error \<Rightarrow> Inl error
            | Inr ctx \<Rightarrow>
                Inr \<lparr>contexts = ctx,
                     sources = dedupSources (buildSources api titleDictionary currentLang metadataResults),
                     matches = ms, usedFallback = fallback\<rparr>))"

definition filteredOpts :: "int \<Rightarrow> string \<Rightarrow> queryOpts" where
  "filteredOpts k currentLang =
     \<lparr>topK = k, returnValues = False, returnMetadata = ''all'', filter' = Some currentLang\<rparr>"

definition fallbackOpts :: "int \<Rightarrow> queryOpts" where
  "fallbackOpts k = \<lparr>topK = k, returnValues = False, returnMetadata = ''all'', filter' = None\<rparr>"

text \<open>
  The inner \<open>try\<close> block: the filtered query raced against the timer, and the
  \<open>throw\<close> on an empty answer.  The query is started first and the timer is armed
  after it, so the timer fires later than \<open>LANGUAGE_FILTER_TIMEOUT\<close> milliseconds after
  the start of the query: a store that answers after exactly that many milliseconds
  wins the race, and the timer wins only against a longer latency.
\<close>

definition tryFiltered :: "queryResponse \<Rightarrow> js_error + match list" where
  "tryFiltered r =
     (if latency r \<le> LANGUAGE_FILTER_TIMEOUT
      then (case outcome r of
              Inl error \<Rightarrow> Inl error
            | Inr ms \<Rightarrow> if length ms = 0 then Inl (Error ''No language-filtered results'') else Inr ms)
      else Inl (Error ''Language filter timeout''))"

text \<open>
  A call of \<open>env.VECTORIZE.query\<close>: the store moves to its next state and the call is
  appended to the log of the queries issued.
\<close>

definition issue ::
  "'s vectorize \<Rightarrow> real list \<Rightarrow> queryOpts \<Rightarrow> 's \<times> (real list \<times> queryOpts) list
     \<Rightarrow> queryResponse \<times> 's \<times> (real list \<times> queryOpts) list" where
  "issue query qvec opts state =
     (case state of (st, calls) \<Rightarrow>
        (case query st qvec opts of (r, st') \<Rightarrow> (r, st', calls @ [(qvec, opts)])))"

text \<open>
  The result is what the caller gets (\<open>Inl\<close>: the promise rejects; the outer \<open>catch\<close>
  rethrows), the queries issued, in order, and the state of the store.
\<close>

definition getRelevantDocuments ::
  "'s vectorize \<Rightarrow> 's \<Rightarrow> 'u url_api \<Rightarrow> (string \<rightharpoonup> string) \<Rightarrow> real list \<Rightarrow> int \<Rightarrow> string
     \<Rightarrow> (js_error + retrieval) \<times> (real list \<times> queryOpts) list \<times> 's" where
  "getRelevantDocuments query st api titleDictionary qvec k currentLang =
     (case issue query qvec (filteredOpts k currentLang) (st, []) of
        (r1, st1, calls1) \<Rightarrow>
          (case tryFiltered r1 of
             Inr ms \<Rightarrow>
               (processMatches api titleDictionary currentLang False ms, calls1, st1)
           | Inl error \<Rightarrow>
               (case issue query qvec (fallbackOpts k) (st1, calls1) of
                  (r2, st2, calls2) \<Rightarrow>
                    (case outcome r2 of
                       Inl error2 \<Rightarrow> (Inl error2, calls2, st2)
                     | Inr ms \<Rightarrow>
                         (processMatches api titleDictionary currentLang True ms, calls2, st2)))))"

section \<open>Ingestion (\<open>scripts/verify-ingest-logic.ts\<close>)\<close>

text \<open>
  A file is identified by its path relative to the content directory, that is by
  \<open>path.relative(CONTENT_DIR, file)\<close>, which both functions compute first.
\<close>

subsection \<open>\<open>toUrlFromPath\<close>\<close>

text \<open>\<open>replace(/\\/g, '/')\<close>.\<close>

definition slashes :: "string \<Rightarrow> string" where
  "slashes s = map (\<lambda>c. if c = CHR 0x5C then CHR ''/'' else c) s"

text \<open>\<open>replace(/\.md$/i, '')\<close>.\<close>

definition stripMd :: "string \<Rightarrow> string" where
  "stripMd s =
     (case rev s of
        d # m # dot # r \<Rightarrow>
          if dot = CHR ''.'' \<and> (m = CHR ''m'' \<or> m = CHR ''M'') \<and> (d = CHR ''d'' \<or> d = CHR ''D'')
          then rev r else s
      | _ \<Rightarrow> s)"

text \<open>\<open>replace(/^\//, '')\<close>.\<close>

definition stripLeadingSlash :: "string \<Rightarrow> string" where
  "stripLeadingSlash s = (case s of [] \<Rightarrow> [] | c # r \<Rightarrow> if c = CHR ''/'' then r else s)"

text \<open>\<open>replace(/\/+/g, '/')\<close>.\<close>

fun collapseSlashes :: "string \<Rightarrow> string" where
  "collapseSlashes (a # b # r) =
     (if a = CHR ''/'' \<and> b = CHR ''/'' then collapseSlashes (b # r)
      else a # collapseSlashes (b # r))"
| "collapseSlashes s = s"

text \<open>\<open>replace(/\/$/, '')\<close>.\<close>

definition stripTrailingSlash :: "string \<Rightarrow> string" where
  "stripTrailingSlash s = (if s \<noteq> [] \<and> last s = CHR ''/'' then butlast s else s)"

definition cleanPathOf :: "string \<Rightarrow> string" where
  "cleanPathOf rel =
     (let noExt = stripMd (slashes rel)
      in if suffix ''/_index'' noExt then stripLeadingSlash (replaceFirst noExt ''/_index'' ''/'')
         else if suffix ''/index'' noExt then stripLeadingSlash (replaceFirst noExt ''/index'' ''/'')
         else stripLeadingSlash noExt @ ''/'')"

definition finalPathOf :: "string \<Rightarrow> string" where
  "finalPathOf cleanPath =
     (if prefix ''zh/blog/'' cleanPath then replaceFirst cleanPath ''zh/blog/'' ''blog/''
      else if prefix ''en/blog/'' cleanPath then cleanPath
      else if prefix ''zh/'' cleanPath then replaceFirst cleanPath ''zh/'' []
      else cleanPath)"

definition urlPathOf :: "string \<Rightarrow> string" where
  "urlPathOf rel =
     (let p = stripTrailingSlash (collapseSlashes (''/'' @ finalPathOf (cleanPathOf rel)))
      in if p = [] then ''/'' else p)"

text \<open>The value returned: \<open>{ url, language }\<close>.\<close>

record urlAndLanguage =
  res_url :: string
  res_language :: string

text \<open>
  \<open>newURL p b\<close> stands for \<open>new URL(p, b).toString()\<close>, the platform's resolution of
  the path against \<open>BASE_URL\<close>; it is a parameter.
\<close>

definition toUrlFromPath :: "(string \<Rightarrow> string \<Rightarrow> string) \<Rightarrow> string \<Rightarrow> string \<Rightarrow> urlAndLanguage" where
  "toUrlFromPath newURL BASE_URL rel =
     \<lparr>res_url = newURL (urlPathOf rel) BASE_URL,
      res_language = (if prefix ''en/'' (cleanPathOf rel) then ''en'' else ''zh'')\<rparr>"

text \<open>
  For a base that is an origin without a trailing slash (the default
  \<open>https://your-site.com\<close>) and an absolute path of unreserved characters without dot
  segments, the platform's result is the base followed by the path.  This instance is
  used to evaluate \<open>toUrlFromPath\<close> on such inputs.
\<close>

definition originURL :: "string \<Rightarrow> string \<Rightarrow> string" where
  "originURL p b = b @ p"

subsection \<open>The selection of files in \<open>main\<close>\<close>

definition isStaticPage :: "string \<Rightarrow> bool" where
  "isStaticPage relativePath =
     (includes' relativePath ''/about/'' \<or> includes' relativePath ''/contact/''
      \<or> includes' relativePath ''/community/'')"

text \<open>\<open>relativePath.replace(/^(zh|en)\/blog\//, '').replace('/index.md', '')\<close>.\<close>

definition postPathOf :: "string \<Rightarrow> string" where
  "postPathOf relativePath =
     replaceFirst
       (if prefix ''zh/blog/'' relativePath \<or> prefix ''en/blog/'' relativePath
        then drop 8 relativePath else relativePath)
       ''/index.md'' []"

text \<open>
  The body of the loop.  \<open>blogFiles\<close> is a \<open>Map\<close>: an association list in insertion
  order, where \<open>set\<close> on a key that is present replaces its value in place
  (\<^const>\<open>AList.update\<close>); \<open>staticFiles\<close> is an array.
\<close>

definition selectStep :: "(string \<times> string) list \<times> string list \<Rightarrow> string \<Rightarrow> (string \<times> string) list \<times> string list" where
  "selectStep state file =
     (case state of (blogFiles, staticFiles) \<Rightarrow>
        if isStaticPage file then
          (if prefix ''zh/'' file then (blogFiles, staticFiles @ [file]) else (blogFiles, staticFiles))
        else if includes' file ''/blog/'' then
          (let postPath = postPathOf file in
           if prefix ''zh/'' file then (AList.update postPath file blogFiles, staticFiles)
           else if prefix ''en/'' file \<and> map_of blogFiles postPath = None
             then (AList.update postPath file blogFiles, staticFiles)
           else (blogFiles, staticFiles))
        else (blogFiles, staticFiles))"

definition selectFiles :: "string list \<Rightarrow> (string \<times> string) list \<times> string list" where
  "selectFiles allFiles = foldl selectStep ([], []) allFiles"

text \<open>\<open>[...blogFiles.values(), ...staticFiles]\<close>.\<close>

definition filesToProcess :: "string list \<Rightarrow> string list" where
  "filesToProcess allFiles =
     (case selectFiles allFiles of (blogFiles, staticFiles) \<Rightarrow> map snd blogFiles @ staticFiles)"


section \<open>Concrete inputs\<close>

text \<open>
  An instance of the \<open>URL\<close> parameter for evaluating concrete cases.  It covers the
  strings \<open>https://host/path\<close> and \<open>http://host/path\<close> (no query, no fragment):
  it keeps origin and path apart, stores a new path as it is given and prints both in
  order.  It rejects every other string; the platform rejects those without a scheme in
  the same way, and the instance is not used on strings with another scheme.
\<close>

record simpleUrl =
  su_origin :: string
  su_pathname :: string

definition simpleParse :: "string \<Rightarrow> simpleUrl option" where
  "simpleParse s =
     (let scheme = (if prefix ''https://'' s then ''https://''
                    else if prefix ''http://'' s then ''http://'' else []);
          rest = drop (length scheme) s;
          host = takeWhile (\<lambda>c. c \<noteq> CHR ''/'') rest;
          p = dropWhile (\<lambda>c. c \<noteq> CHR ''/'') rest
      in if scheme \<noteq> [] \<and> host \<noteq> []
         then Some \<lparr>su_origin = scheme @ host, su_pathname = (if p = [] then ''/'' else p)\<rparr>
         else None)"

definition simpleApi :: "simpleUrl url_api" where
  "simpleApi =
     \<lparr>parseURL = simpleParse, getPathname = su_pathname,
      setPathname = (\<lambda>u p. u\<lparr>su_pathname := p\<rparr>),
      urlToString = (\<lambda>u. su_origin u @ su_pathname u)\<rparr>"

text \<open>A match with the given id, text, title and URL.\<close>

definition mkMatch :: "string \<Rightarrow> string \<Rightarrow> string option \<Rightarrow> string option \<Rightarrow> match" where
  "mkMatch i t ti u =
     \<lparr>id' = i, score = 0,
      metadata = Some \<lparr>text' = Some t, source = None, title = ti, url = u, language = None\<rparr>\<rparr>"

text \<open>
  A store for concrete runs: its state counts the queries; the first query is answered
  by \<open>r1\<close> and every later one by \<open>r2\<close>.
\<close>

definition scriptedStore :: "queryResponse \<Rightarrow> queryResponse \<Rightarrow> nat vectorize" where
  "scriptedStore r1 r2 n qvec opts = (if n = 0 then r1 else r2, Suc n)"

section \<open>Notions used in the statements about the selection of files\<close>

text \<open>
  The classification made by the loop of \<open>main\<close>: a file is handled as a blog post when
  it is not matched as a static page and its path contains \<open>/blog/\<close>; its key is
  \<open>postPath\<close>.  \<open>chineseFor k\<close> and \<open>englishFor k\<close> are the blog posts with key \<open>k\<close> in
  either language.
\<close>

definition isBlogPost :: "string \<Rightarrow> bool" where
  "isBlogPost f = (\<not> isStaticPage f \<and> includes' f ''/blog/'')"

definition chineseFor :: "string \<Rightarrow> string \<Rightarrow> bool" where
  "chineseFor k f = (isBlogPost f \<and> prefix ''zh/'' f \<and> postPathOf f = k)"

definition englishFor :: "string \<Rightarrow> string \<Rightarrow> bool" where
  "englishFor k f = (isBlogPost f \<and> prefix ''en/'' f \<and> postPathOf f = k)"

section \<open>Notions used in the statements about the chunker\<close>

text \<open>The non-white-space content of a string.\<close>

definition nonSpace :: "jsstring \<Rightarrow> jsstring" where
  "nonSpace s = filter (\<lambda>c. \<not> isSpace c) s"



section \<open>Properties of the chunker\<close>

subsection \<open>Trimming\<close>

lemma filter_dropWhile_not: "filter (\<lambda>c. \<not> P c) (dropWhile P xs) = filter (\<lambda>c. \<not> P c) xs"
  by (induction xs) auto

lemma filter_trim: "filter (\<lambda>c. \<not> isSpace c) (trim s) = filter (\<lambda>c. \<not> isSpace c) s"
  by (simp add: trim_def filter_dropWhile_not flip: rev_filter)





lemma concat_splitSentences: "concat (splitSentences aft cur s) = cur @ s"
  by (induction s arbitrary: aft cur) auto


lemma nonSpace_Nil: "nonSpace [] = []"
  by (simp add: nonSpace_def)

lemma nonSpace_append: "nonSpace (a @ b) = nonSpace a @ nonSpace b"
  by (simp add: nonSpace_def)

lemma nonSpace_trim: "nonSpace (trim s) = nonSpace s"
  by (simp add: nonSpace_def filter_trim)

lemma nonSpace_pushChunk:
  "nonSpace (concat (pushChunk chunks s)) = nonSpace (concat chunks) @ nonSpace s"
proof (cases "trim s = []")
  case True
  then have "nonSpace (trim s) = []" by (simp add: nonSpace_Nil)
  then have "nonSpace s = []" by (simp add: nonSpace_trim)
  with True show ?thesis by (simp add: pushChunk_def)
next
  case False
  then show ?thesis by (simp add: pushChunk_def nonSpace_append nonSpace_trim)
qed

lemma nonSpace_fillBuffer:
  "fillBuffer maxLen parts (buf, chunks) = (buf', chunks') \<Longrightarrow>
   nonSpace (concat chunks') @ nonSpace buf' =
   nonSpace (concat chunks) @ nonSpace buf @ nonSpace (concat parts)"
proof (induction parts arbitrary: buf chunks)
  case Nil
  then show ?case by (simp add: nonSpace_Nil)
next
  case (Cons part parts)
  show ?case
  proof (cases "int (length (buf @ part)) > maxLen")
    case True
    with Cons.prems have "fillBuffer maxLen parts (part, pushChunk chunks buf) = (buf', chunks')"
      by simp
    from Cons.IH [OF this] show ?thesis
      by (simp add: nonSpace_pushChunk nonSpace_append)
  next
    case False
    with Cons.prems have "fillBuffer maxLen parts (buf @ part, chunks) = (buf', chunks')"
      by simp
    from Cons.IH [OF this] show ?thesis
      by (simp add: nonSpace_append)
  qed
qed

lemma nonSpace_chunkSection:
  "nonSpace (concat (chunkSection maxLen chunks sec)) = nonSpace (concat chunks) @ nonSpace sec"
proof (cases "int (length sec) \<le> maxLen")
  case True
  then show ?thesis by (simp add: chunkSection_def nonSpace_pushChunk)
next
  case False
  obtain buf chunks' where f: "fillBuffer maxLen (splitSentences False [] sec) ([], chunks) = (buf, chunks')"
    by (cases "fillBuffer maxLen (splitSentences False [] sec) ([], chunks)") 
  from nonSpace_fillBuffer [OF f]
  have "nonSpace (concat chunks') @ nonSpace buf = nonSpace (concat chunks) @ nonSpace sec"
    by (simp add: concat_splitSentences nonSpace_Nil)
  with False f show ?thesis by (simp add: chunkSection_def nonSpace_pushChunk)
qed

lemma nonSpace_foldl_chunkSection:
  "nonSpace (concat (foldl (chunkSection maxLen) chunks secs)) =
   nonSpace (concat chunks) @ nonSpace (concat secs)"
  by (induction secs arbitrary: chunks) (simp_all add: nonSpace_chunkSection nonSpace_append nonSpace_Nil)

lemma nonSpace_sections:
  "nonSpace (concat (sections input)) = nonSpace (concat (splitHeadings True [] input))"
proof -
  have "nonSpace (concat (filter (\<lambda>s. s \<noteq> []) (map trim xs))) = nonSpace (concat xs)" for xs
  proof (induction xs)
    case Nil
    show ?case by simp
  next
    case (Cons x xs)
    show ?case
    proof (cases "trim x = []")
      case True
      then have "nonSpace (trim x) = []" by (simp add: nonSpace_Nil)
      then have "nonSpace x = []" by (simp add: nonSpace_trim)
      with True Cons show ?thesis by (simp add: nonSpace_append)
    next
      case False
      with Cons show ?thesis by (simp add: nonSpace_append nonSpace_trim)
    qed
  qed
  then show ?thesis by (simp add: sections_def)
qed

subsection \<open>Claim C9: what the chunks contain\<close>

text \<open>
  Claim C9 as stated, "the concatenation of the chunks, ignoring white space,
  reproduces the non-white-space content of the input", fails on the input \<open># a\<close>:
  the heading marker is the separator of \<open>split\<close> and is in no chunk.
\<close>

theorem chunkText_content_counterexample:
  "nonSpace (concat (chunkText [0x23, 0x20, 0x61] 800)) \<noteq> nonSpace [0x23, 0x20, 0x61]"
  by code_simp

text \<open>
  Claim C9, amended: ignoring white space, the concatenation of the chunks is the
  concatenation of the pieces between the heading markers of the input (the input
  without its heading markers); when every such piece is blank, it is the input itself.
\<close>

theorem chunkText_content:
  "nonSpace (concat (chunkText input maxLen)) =
     (if sections input \<noteq> [] then nonSpace (concat (splitHeadings True [] input))
      else nonSpace input)"
  by (simp add: chunkText_def loopSections_def nonSpace_foldl_chunkSection nonSpace_sections nonSpace_Nil)

text \<open>The input \<open># a\<close>, newline, \<open>## b!c\<close> with \<open>maxLen = 2\<close>.\<close>

theorem chunkText_content_witness:
  "sections [0x23, 0x20, 0x61, 0x0A, 0x23, 0x23, 0x20, 0x62, 0x21, 0x63] \<noteq> [] \<and>
   nonSpace (concat (chunkText [0x23, 0x20, 0x61, 0x0A, 0x23, 0x23, 0x20, 0x62, 0x21, 0x63] 2)) =
     [0x61, 0x62, 0x21, 0x63]"
proof -
  let ?input = "[0x23, 0x20, 0x61, 0x0A, 0x23, 0x23, 0x20, 0x62, 0x21, 0x63] :: jsstring"
  have s: "sections ?input \<noteq> []" by code_simp
  have v: "nonSpace (concat (splitHeadings True [] ?input)) = [0x61, 0x62, 0x21, 0x63]"
    by code_simp
  from chunkText_content [of ?input 2] s v show ?thesis by simp
qed

text \<open>Without a heading marker in the input, the claim holds as it is stated.\<close>

lemma chunkText_content_no_heading:
  assumes "splitHeadings True [] input = [input]"
  shows "nonSpace (concat (chunkText input maxLen)) = nonSpace input"
proof -
  have "nonSpace (concat (loopSections input)) = nonSpace input"
    using assms nonSpace_sections [of input] by (simp add: loopSections_def)
  then show ?thesis
    by (simp add: chunkText_def nonSpace_foldl_chunkSection nonSpace_Nil)
qed

subsection \<open>Claim C8: the bound on the chunks\<close>








section \<open>Searching a list\<close>

lemma find_SomeD: "find P xs = Some x \<Longrightarrow> P x \<and> x \<in> set xs"
  by (induction xs) (auto split: if_splits)

lemma find_exists: "\<exists>x\<in>set xs. P x \<Longrightarrow> \<exists>y. find P xs = Some y"
  by (induction xs) auto

lemma find_none: "\<not> (\<exists>x\<in>set xs. P x) \<Longrightarrow> find P xs = None"
  by (induction xs) auto

section \<open>Properties of the retriever\<close>

subsection \<open>Removal of duplicate sources\<close>

lemma dedupLoop_acc:
  "snd (dedupLoop srcs (seen, acc)) = acc @ snd (dedupLoop srcs (seen, []))"
proof (induction srcs arbitrary: seen acc)
  case Nil
  show ?case by simp
next
  case (Cons s srcs)
  show ?case
  proof (cases "src_url s \<notin> seen \<and> src_url s \<noteq> ''#''")
    case True
    then show ?thesis
      using Cons.IH [of "insert (src_url s) seen" "acc @ [s]"]
            Cons.IH [of "insert (src_url s) seen" "[s]"]
      by simp
  next
    case False
    then show ?thesis using Cons.IH [of seen acc] by auto
  qed
qed

lemma dedupLoop_Cons:
  "snd (dedupLoop (s # srcs) (seen, [])) =
     (if src_url s \<notin> seen \<and> src_url s \<noteq> ''#''
      then s # snd (dedupLoop srcs (insert (src_url s) seen, []))
      else snd (dedupLoop srcs (seen, [])))"
  using dedupLoop_acc [of srcs "insert (src_url s) seen" "[s]"] by simp

lemma dedupLoop_urls:
  "s \<in> set (snd (dedupLoop srcs (seen, []))) \<Longrightarrow> src_url s \<noteq> ''#'' \<and> src_url s \<notin> seen"
proof (induction srcs arbitrary: seen)
  case Nil
  then show ?case by simp
next
  case (Cons a srcs)
  then show ?case
    by (auto simp: dedupLoop_Cons simp del: dedupLoop.simps split: if_splits)
qed

lemma dedupLoop_distinct: "distinct (map src_url (snd (dedupLoop srcs (seen, []))))"
proof (induction srcs arbitrary: seen)
  case Nil
  show ?case by simp
next
  case (Cons a srcs)
  have "src_url a \<notin> src_url ` set (snd (dedupLoop srcs (insert (src_url a) seen, [])))"
  proof
    assume "src_url a \<in> src_url ` set (snd (dedupLoop srcs (insert (src_url a) seen, [])))"
    then obtain s where s: "s \<in> set (snd (dedupLoop srcs (insert (src_url a) seen, [])))"
      and eq: "src_url s = src_url a" by auto
    from dedupLoop_urls [OF s] eq show False by simp
  qed
  with Cons.IH show ?case
    by (simp add: dedupLoop_Cons del: dedupLoop.simps)
qed

lemma dedupLoop_subseq: "subseq (snd (dedupLoop srcs (seen, []))) srcs"
proof (induction srcs arbitrary: seen)
  case Nil
  show ?case by simp
next
  case (Cons a srcs)
  show ?case using Cons.IH by (auto simp: dedupLoop_Cons simp del: dedupLoop.simps)
qed

lemma dedupLoop_find:
  "find (\<lambda>t. src_url t = u) (snd (dedupLoop srcs (seen, []))) =
     (if u \<in> seen \<or> u = ''#'' then None else find (\<lambda>t. src_url t = u) srcs)"
proof (induction srcs arbitrary: seen)
  case Nil
  show ?case by simp
next
  case (Cons a srcs)
  show ?case using Cons.IH by (auto simp: dedupLoop_Cons simp del: dedupLoop.simps)
qed

text \<open>
  Claim C4: the loop removes every source whose URL is the placeholder \<open>#\<close>; the
  surviving sources have pairwise different URLs and are a subsequence of the input (so
  their relative order is unchanged); and for every URL other than the placeholder the
  source that survives is the first one of the input with that URL.
\<close>

theorem dedupSources_first_seen:
  "(\<forall>s\<in>set (dedupSources srcs). src_url s \<noteq> ''#'') \<and>
   distinct (map src_url (dedupSources srcs)) \<and>
   subseq (dedupSources srcs) srcs \<and>
   (\<forall>s\<in>set srcs. src_url s \<noteq> ''#'' \<longrightarrow>
      find (\<lambda>t. src_url t = src_url s) (dedupSources srcs) = find (\<lambda>t. src_url t = src_url s) srcs)"
  unfolding dedupSources_def
  using dedupLoop_urls [of _ srcs "{}"] dedupLoop_distinct [of srcs "{}"]
        dedupLoop_subseq [of srcs "{}"]
  by (auto simp: dedupLoop_find)


text \<open>Four sources: a placeholder and a repeated URL are removed.\<close>

theorem dedupSources_first_seen_witness:
  "dedupSources
     [\<lparr>src_id = ''1'', src_url = ''u'', src_title = Str ''A'', src_source = ''s'', hasEnglishVersion = True\<rparr>,
      \<lparr>src_id = ''2'', src_url = ''#'', src_title = Str ''B'', src_source = ''s'', hasEnglishVersion = True\<rparr>,
      \<lparr>src_id = ''3'', src_url = ''u'', src_title = Str ''C'', src_source = ''s'', hasEnglishVersion = True\<rparr>,
      \<lparr>src_id = ''4'', src_url = ''v'', src_title = Str ''D'', src_source = ''s'', hasEnglishVersion = True\<rparr>] =
     [\<lparr>src_id = ''1'', src_url = ''u'', src_title = Str ''A'', src_source = ''s'', hasEnglishVersion = True\<rparr>,
      \<lparr>src_id = ''4'', src_url = ''v'', src_title = Str ''D'', src_source = ''s'', hasEnglishVersion = True\<rparr>] \<and>
   find (\<lambda>t. src_url t = ''u'')
     (dedupSources
       [\<lparr>src_id = ''1'', src_url = ''u'', src_title = Str ''A'', src_source = ''s'', hasEnglishVersion = True\<rparr>,
        \<lparr>src_id = ''2'', src_url = ''#'', src_title = Str ''B'', src_source = ''s'', hasEnglishVersion = True\<rparr>,
        \<lparr>src_id = ''3'', src_url = ''u'', src_title = Str ''C'', src_source = ''s'', hasEnglishVersion = True\<rparr>,
        \<lparr>src_id = ''4'', src_url = ''v'', src_title = Str ''D'', src_source = ''s'', hasEnglishVersion = True\<rparr>]) =
     Some \<lparr>src_id = ''1'', src_url = ''u'', src_title = Str ''A'', src_source = ''s'', hasEnglishVersion = True\<rparr>"
proof -
  let ?a = "\<lparr>src_id = ''1'', src_url = ''u'', src_title = Str ''A'', src_source = ''s'', hasEnglishVersion = True\<rparr>"
  let ?b = "\<lparr>src_id = ''2'', src_url = ''#'', src_title = Str ''B'', src_source = ''s'', hasEnglishVersion = True\<rparr>"
  let ?c = "\<lparr>src_id = ''3'', src_url = ''u'', src_title = Str ''C'', src_source = ''s'', hasEnglishVersion = True\<rparr>"
  let ?d = "\<lparr>src_id = ''4'', src_url = ''v'', src_title = Str ''D'', src_source = ''s'', hasEnglishVersion = True\<rparr>"
  have e: "dedupSources [?a, ?b, ?c, ?d] = [?a, ?d]" by (simp add: dedupSources_def)
  have m: "?c \<in> set [?a, ?b, ?c, ?d]" and u: "src_url ?c \<noteq> ''#''" by simp_all
  from dedupSources_first_seen [of "[?a, ?b, ?c, ?d]"]
  have "\<forall>s\<in>set [?a, ?b, ?c, ?d]. src_url s \<noteq> ''#'' \<longrightarrow>
      find (\<lambda>t. src_url t = src_url s) (dedupSources [?a, ?b, ?c, ?d]) =
      find (\<lambda>t. src_url t = src_url s) [?a, ?b, ?c, ?d]" by blast
  from this [rule_format, OF m u] e show ?thesis by simp
qed

subsection \<open>Language filter, URL conversion, validation and fallback\<close>







text \<open>
  Claim C10: \<open>convertUrlForLanguage\<close> returns the placeholder \<open>#\<close> and the empty
  string unchanged, and returns the original string when the \<open>URL\<close> constructor
  rejects it; the source built from metadata with such a URL carries that URL.  The
  function has no error result: the only exception of its body is caught.
\<close>

theorem convertUrlForLanguage_total:
  "convertUrlForLanguage api ''#'' targetLanguage = ''#'' \<and>
   convertUrlForLanguage api [] targetLanguage = [] \<and>
   (parseURL api originalUrl = None \<longrightarrow>
      convertUrlForLanguage api originalUrl targetLanguage = originalUrl) \<and>
   (parseURL api (originalUrlOf md) = None \<longrightarrow>
      src_url (toSource api titleDictionary currentLang vid md) = originalUrlOf md)"
  by (simp add: convertUrlForLanguage_def tryConvert_def toSource_def Let_def)

text \<open>A string that is not a URL, and a URL with a Chinese prefix.\<close>

theorem convertUrlForLanguage_total_witness:
  "parseURL simpleApi ''not a url'' = None \<and>
   convertUrlForLanguage simpleApi ''not a url'' ''en'' = ''not a url'' \<and>
   src_url (toSource simpleApi Map.empty ''en'' ''doc1''
      \<lparr>text' = Some ''t'', source = None, title = Some ''A'', url = Some ''not a url'',
       language = None\<rparr>) = ''not a url'' \<and>
   convertUrlForLanguage simpleApi ''https://your-site.com/zh/blog/a'' ''en'' =
     ''https://your-site.com/en/blog/a''"
proof -
  let ?md = "\<lparr>text' = Some ''t'', source = None, title = Some ''A'', url = Some ''not a url'',
       language = None\<rparr>"
  have p: "parseURL simpleApi ''not a url'' = None" by (simp add: simpleApi_def simpleParse_def)
  have o: "originalUrlOf ?md = ''not a url''" by (simp add: originalUrlOf_def orElse_def)
  have c: "convertUrlForLanguage simpleApi ''https://your-site.com/zh/blog/a'' ''en'' =
     ''https://your-site.com/en/blog/a''" by code_simp
  from convertUrlForLanguage_total
    [where api = simpleApi and targetLanguage = "''en''" and originalUrl = "''not a url''"
       and md = ?md and titleDictionary = Map.empty and currentLang = "''en''" and vid = "''doc1''"]
    p o c
  show ?thesis by simp
qed






lemma tryFiltered_Inl_iff:
  "(\<exists>e. tryFiltered r = Inl e) \<longleftrightarrow>
   (LANGUAGE_FILTER_TIMEOUT < latency r \<or> (\<exists>e. outcome r = Inl e) \<or> outcome r = Inr [])"
  by (cases "outcome r") (auto simp: tryFiltered_def)

text \<open>
  Claim C1: when the filtered query times out (the store needs more than
  \<open>LANGUAGE_FILTER_TIMEOUT\<close> milliseconds), rejects or returns no match, the queries
  issued are exactly two, the filtered one and then one without filter and with the same
  \<open>topK\<close>, and the store is left in the state that follows these two queries: nothing
  is retried.  When that second query rejects, its error is the result of
  \<open>getRelevantDocuments\<close>, and otherwise its matches are processed.
\<close>

theorem getRelevantDocuments_single_fallback:
  assumes "query st qvec (filteredOpts k lang) = (respA, stA)"
    and "LANGUAGE_FILTER_TIMEOUT < latency respA \<or> (\<exists>e. outcome respA = Inl e) \<or> outcome respA = Inr []"
    and "query stA qvec (fallbackOpts k) = (respB, stB)"
  shows "fst (snd (getRelevantDocuments query st api dict qvec k lang)) =
           [(qvec, filteredOpts k lang), (qvec, fallbackOpts k)] \<and>
         length (fst (snd (getRelevantDocuments query st api dict qvec k lang))) = 2 \<and>
         snd (snd (getRelevantDocuments query st api dict qvec k lang)) = stB \<and>
         filter' (filteredOpts k lang) = Some lang \<and> topK (filteredOpts k lang) = k \<and>
         filter' (fallbackOpts k) = None \<and> topK (fallbackOpts k) = k \<and>
         (\<forall>e. outcome respB = Inl e \<longrightarrow>
            fst (getRelevantDocuments query st api dict qvec k lang) = Inl e) \<and>
         (\<forall>ms. outcome respB = Inr ms \<longrightarrow>
            fst (getRelevantDocuments query st api dict qvec k lang) =
              processMatches api dict lang True ms)"
proof -
  from assms(2) obtain e where "tryFiltered respA = Inl e"
    using tryFiltered_Inl_iff [of respA] by blast
  with assms(1,3) show ?thesis
    by (cases "outcome respB")
       (simp_all add: getRelevantDocuments_def issue_def filteredOpts_def fallbackOpts_def)
qed

text \<open>
  A store that counts its queries.  The filtered query returns no match and the
  fallback query rejects; and the filtered query takes 501 milliseconds.  In both runs
  the store has seen two queries.
\<close>

theorem getRelevantDocuments_single_fallback_witness:
  "fst (snd (getRelevantDocuments
       (scriptedStore \<lparr>latency = 10, outcome = Inr []\<rparr>
                      \<lparr>latency = 900, outcome = Inl (Error ''store down'')\<rparr>)
       0 simpleApi Map.empty [1, 0] 15 ''zh'')) =
     [([1, 0], filteredOpts 15 ''zh''), ([1, 0], fallbackOpts 15)] \<and>
   snd (snd (getRelevantDocuments
       (scriptedStore \<lparr>latency = 10, outcome = Inr []\<rparr>
                      \<lparr>latency = 900, outcome = Inl (Error ''store down'')\<rparr>)
       0 simpleApi Map.empty [1, 0] 15 ''zh'')) = Suc (Suc 0) \<and>
   fst (getRelevantDocuments
       (scriptedStore \<lparr>latency = 10, outcome = Inr []\<rparr>
                      \<lparr>latency = 900, outcome = Inl (Error ''store down'')\<rparr>)
       0 simpleApi Map.empty [1, 0] 15 ''zh'') = Inl (Error ''store down'') \<and>
   snd (getRelevantDocuments
       (scriptedStore \<lparr>latency = 501, outcome = Inr [mkMatch ''doc1'' ''t1'' None None]\<rparr>
                      \<lparr>latency = 900, outcome = Inl (Error ''store down'')\<rparr>)
       0 simpleApi Map.empty [1, 0] 15 ''zh'') =
     ([([1, 0], filteredOpts 15 ''zh''), ([1, 0], fallbackOpts 15)], Suc (Suc 0))"
proof -
  let ?resp1 = "\<lparr>latency = 10, outcome = Inr []\<rparr> :: queryResponse"
  let ?late = "\<lparr>latency = 501, outcome = Inr [mkMatch ''doc1'' ''t1'' None None]\<rparr> :: queryResponse"
  let ?resp2 = "\<lparr>latency = 900, outcome = Inl (Error ''store down'')\<rparr> :: queryResponse"
  let ?q = "scriptedStore ?resp1 ?resp2"
  let ?q' = "scriptedStore ?late ?resp2"
  have 1: "?q 0 [1, 0] (filteredOpts 15 ''zh'') = (?resp1, Suc 0)" by (simp add: scriptedStore_def)
  have 2: "LANGUAGE_FILTER_TIMEOUT < latency ?resp1 \<or> (\<exists>e. outcome ?resp1 = Inl e) \<or>
           outcome ?resp1 = Inr []"
    by simp
  have 3: "?q (Suc 0) [1, 0] (fallbackOpts 15) = (?resp2, Suc (Suc 0))" by (simp add: scriptedStore_def)
  have 4: "?q' 0 [1, 0] (filteredOpts 15 ''zh'') = (?late, Suc 0)" by (simp add: scriptedStore_def)
  have 5: "LANGUAGE_FILTER_TIMEOUT < latency ?late \<or> (\<exists>e. outcome ?late = Inl e) \<or>
           outcome ?late = Inr []"
    by (simp add: LANGUAGE_FILTER_TIMEOUT_def)
  have 6: "?q' (Suc 0) [1, 0] (fallbackOpts 15) = (?resp2, Suc (Suc 0))" by (simp add: scriptedStore_def)
  from getRelevantDocuments_single_fallback
    [where query = ?q and st = 0 and qvec = "[1, 0]" and k = 15 and lang = "''zh''"
       and respA = ?resp1 and stA = "Suc 0" and respB = ?resp2 and stB = "Suc (Suc 0)"
       and api = simpleApi and dict = Map.empty, OF 1 2 3]
  have a: "fst (snd (getRelevantDocuments ?q 0 simpleApi Map.empty [1, 0] 15 ''zh'')) =
        [([1, 0], filteredOpts 15 ''zh''), ([1, 0], fallbackOpts 15)]"
    and b: "snd (snd (getRelevantDocuments ?q 0 simpleApi Map.empty [1, 0] 15 ''zh'')) = Suc (Suc 0)"
    and c: "fst (getRelevantDocuments ?q 0 simpleApi Map.empty [1, 0] 15 ''zh'') = Inl (Error ''store down'')"
    by simp_all
  from getRelevantDocuments_single_fallback
    [where query = ?q' and st = 0 and qvec = "[1, 0]" and k = 15 and lang = "''zh''"
       and respA = ?late and stA = "Suc 0" and respB = ?resp2 and stB = "Suc (Suc 0)"
       and api = simpleApi and dict = Map.empty, OF 4 5 6]
  have d: "snd (getRelevantDocuments ?q' 0 simpleApi Map.empty [1, 0] 15 ''zh'') =
     ([([1, 0], filteredOpts 15 ''zh''), ([1, 0], fallbackOpts 15)], Suc (Suc 0))"
    by (simp add: prod_eq_iff)
  from a b c d show ?thesis by simp
qed

text \<open>
  Otherwise, also for a store that answers after exactly \<open>LANGUAGE_FILTER_TIMEOUT\<close>
  milliseconds, the filtered query is the only one.
\<close>

lemma getRelevantDocuments_no_fallback:
  assumes "query st qvec (filteredOpts k lang) = (respA, stA)"
    and "latency respA \<le> LANGUAGE_FILTER_TIMEOUT" and "outcome respA = Inr ms" and "ms \<noteq> []"
  shows "getRelevantDocuments query st api dict qvec k lang =
           (processMatches api dict lang False ms, [(qvec, filteredOpts k lang)], stA)"
  using assms by (simp add: getRelevantDocuments_def issue_def tryFiltered_def)

lemma getRelevantDocuments_at_timeout:
  "snd (getRelevantDocuments
       (scriptedStore \<lparr>latency = 500, outcome = Inr [mkMatch ''doc1'' ''t1'' None None]\<rparr>
                      \<lparr>latency = 900, outcome = Inl (Error ''store down'')\<rparr>)
       0 simpleApi Map.empty [1, 0] 15 ''zh'') =
     ([([1, 0], filteredOpts 15 ''zh'')], Suc 0)"
  by (simp add: getRelevantDocuments_def issue_def tryFiltered_def scriptedStore_def
      LANGUAGE_FILTER_TIMEOUT_def)

subsection \<open>Sources of Chinese matches for an English request\<close>

text \<open>When \<open>translateTitleToEnglish\<close> returns something other than the title it was given.\<close>

lemma translate_differs_iff:
  "translateTitleToEnglish dict t \<noteq> Str t \<longleftrightarrow>
     (\<exists>s. getProperty dict t = Some (Str s) \<and> s \<noteq> [] \<and> s \<noteq> t) \<or>
     (\<exists>n. getProperty dict t = Some (Inherited n))"
  by (auto simp: translateTitleToEnglish_def split: option.splits jsvalue.splits)

lemma getProperty_entry:
  "key \<noteq> ''__proto__'' \<Longrightarrow> dict key = Some s \<Longrightarrow> getProperty dict key = Some (Str s)"
  by (simp add: getProperty_def)

lemma toSource_id: "src_id (toSource api dict lang vid md) = vid"
  by (simp add: toSource_def Let_def)

lemma set_buildSources:
  "set (buildSources api dict lang rs) =
     {s. \<exists>v md. v \<in> set rs \<and> mr_metadata v = Some md \<and> (truthy (url md) \<or> truthy (title md)) \<and>
          s = toSource api dict lang (mr_id v) md \<and> (lang = ''en'' \<longrightarrow> hasEnglishVersion s)}"
  by (auto simp: buildSources_def map_filter_def image_iff split: option.splits if_splits)

lemma toSource_en_chinese:
  assumes "\<not> includes' (originalUrlOf md) ''/en/''"
  shows "hasEnglishVersion (toSource api dict ''en'' vid md) =
           (translateTitleToEnglish dict (originalTitleOf vid md) \<noteq> Str (originalTitleOf vid md))"
    and "translateTitleToEnglish dict (originalTitleOf vid md) \<noteq> Str (originalTitleOf vid md) \<Longrightarrow>
         toSource api dict ''en'' vid md =
           \<lparr>src_id = vid, src_url = convertUrlForLanguage api (originalUrlOf md) ''en'',
            src_title = translateTitleToEnglish dict (originalTitleOf vid md),
            src_source = orElse (source md) vid, hasEnglishVersion = True\<rparr>"
  using assms by (simp_all add: toSource_def Let_def)

lemma dedupSources_Nil: "dedupSources [] = []"
  by (simp add: dedupSources_def)

lemma dedupSources_keeps_url:
  assumes "s \<in> set srcs" and "src_url s \<noteq> ''#''"
  shows "\<exists>t\<in>set (dedupSources srcs). src_url t = src_url s"
proof -
  from assms(1) have "\<exists>t. find (\<lambda>t. src_url t = src_url s) srcs = Some t"
    by (induction srcs) auto
  then obtain t where "find (\<lambda>t. src_url t = src_url s) srcs = Some t" ..
  with assms(2) have "find (\<lambda>t. src_url t = src_url s) (dedupSources srcs) = Some t"
    by (simp add: dedupSources_def dedupLoop_find)
  from find_SomeD [OF this] show ?thesis by blast
qed

text \<open>
  What step 5 does, for a request for \<open>en\<close> and matches with pairwise different ids,
  with a match that has a URL or a title and whose URL does not contain \<open>/en/\<close>: the
  match has a source exactly when \<open>translateTitleToEnglish\<close> returns something other than
  its title; the source carries the URL returned by \<open>convertUrlForLanguage\<close> and the
  value returned by \<open>translateTitleToEnglish\<close>, and the deduplicated list has a source
  with that URL unless it is the placeholder.  When this test fails for every match and
  no URL contains \<open>/en/\<close>, the list is empty.
\<close>

lemma buildSources_detail:
  assumes v: "v \<in> set rs" and md: "mr_metadata v = Some md"
    and has: "truthy (url md) \<or> truthy (title md)"
    and zh: "\<not> includes' (originalUrlOf md) ''/en/''"
    and ids: "distinct (map mr_id rs)"
  shows "((\<exists>s\<in>set (buildSources api dict ''en'' rs). src_id s = mr_id v) \<longleftrightarrow>
            translateTitleToEnglish dict (originalTitleOf (mr_id v) md) \<noteq>
              Str (originalTitleOf (mr_id v) md)) \<and>
         (\<forall>s\<in>set (buildSources api dict ''en'' rs). src_id s = mr_id v \<longrightarrow>
            s = \<lparr>src_id = mr_id v,
                 src_url = convertUrlForLanguage api (originalUrlOf md) ''en'',
                 src_title = translateTitleToEnglish dict (originalTitleOf (mr_id v) md),
                 src_source = orElse (source md) (mr_id v), hasEnglishVersion = True\<rparr>) \<and>
         (translateTitleToEnglish dict (originalTitleOf (mr_id v) md) \<noteq>
            Str (originalTitleOf (mr_id v) md) \<and>
          convertUrlForLanguage api (originalUrlOf md) ''en'' \<noteq> ''#'' \<longrightarrow>
            (\<exists>s\<in>set (dedupSources (buildSources api dict ''en'' rs)).
               src_url s = convertUrlForLanguage api (originalUrlOf md) ''en'')) \<and>
         ((\<forall>w\<in>set rs. \<forall>mw. mr_metadata w = Some mw \<longrightarrow>
              \<not> includes' (originalUrlOf mw) ''/en/'' \<and>
              translateTitleToEnglish dict (originalTitleOf (mr_id w) mw) =
                Str (originalTitleOf (mr_id w) mw)) \<longrightarrow>
            dedupSources (buildSources api dict ''en'' rs) = [])"
proof -
  let ?t = "originalTitleOf (mr_id v) md"
  let ?S = "buildSources api dict ''en'' rs"
  let ?new = "\<lparr>src_id = mr_id v, src_url = convertUrlForLanguage api (originalUrlOf md) ''en'',
           src_title = translateTitleToEnglish dict ?t,
           src_source = orElse (source md) (mr_id v), hasEnglishVersion = True\<rparr>"
  have same: "w = v" if "w \<in> set rs" "mr_id w = mr_id v" for w
    using that v ids by (meson distinct_map inj_onD)
  have only: "s = toSource api dict ''en'' (mr_id v) md \<and> hasEnglishVersion s"
    if "s \<in> set ?S" "src_id s = mr_id v" for s
  proof -
    from that(1) obtain w mdw where w: "w \<in> set rs" "mr_metadata w = Some mdw"
      and s: "s = toSource api dict ''en'' (mr_id w) mdw" and e: "hasEnglishVersion s"
      by (auto simp: set_buildSources)
    from s that(2) have "mr_id w = mr_id v" by (simp add: toSource_id)
    with w(1) have "w = v" by (rule same)
    with w(2) md s e show ?thesis by simp
  qed
  have incl: "?new \<in> set ?S" if tr: "translateTitleToEnglish dict ?t \<noteq> Str ?t"
  proof -
    from tr have "hasEnglishVersion (toSource api dict ''en'' (mr_id v) md)"
      by (simp add: toSource_en_chinese(1) [OF zh])
    with v md has have "toSource api dict ''en'' (mr_id v) md \<in> set ?S"
      by (auto simp: set_buildSources)
    with toSource_en_chinese(2) [OF zh tr, of api] show ?thesis by simp
  qed
  have iff: "(\<exists>s\<in>set ?S. src_id s = mr_id v) \<longleftrightarrow> translateTitleToEnglish dict ?t \<noteq> Str ?t"
  proof
    assume "\<exists>s\<in>set ?S. src_id s = mr_id v"
    then obtain s where "s \<in> set ?S" "src_id s = mr_id v" by blast
    from only [OF this] have "hasEnglishVersion (toSource api dict ''en'' (mr_id v) md)" by auto
    then show "translateTitleToEnglish dict ?t \<noteq> Str ?t"
      by (simp add: toSource_en_chinese(1) [OF zh])
  next
    assume "translateTitleToEnglish dict ?t \<noteq> Str ?t"
    from incl [OF this] have "?new \<in> set ?S" .
    moreover have "src_id ?new = mr_id v" by simp
    ultimately show "\<exists>s\<in>set ?S. src_id s = mr_id v" by blast
  qed
  have form: "\<forall>s\<in>set ?S. src_id s = mr_id v \<longrightarrow> s = ?new"
  proof (intro ballI impI)
    fix s assume "s \<in> set ?S" "src_id s = mr_id v"
    from only [OF this] have s: "s = toSource api dict ''en'' (mr_id v) md"
      and "hasEnglishVersion (toSource api dict ''en'' (mr_id v) md)" by auto
    then have "translateTitleToEnglish dict ?t \<noteq> Str ?t"
      by (simp add: toSource_en_chinese(1) [OF zh])
    from toSource_en_chinese(2) [OF zh this, of api] s show "s = ?new" by simp
  qed
  have final: "\<exists>s\<in>set (dedupSources ?S). src_url s = convertUrlForLanguage api (originalUrlOf md) ''en''"
    if "translateTitleToEnglish dict ?t \<noteq> Str ?t"
      and "convertUrlForLanguage api (originalUrlOf md) ''en'' \<noteq> ''#''"
  proof -
    from incl [OF that(1)] have "?new \<in> set ?S" .
    moreover from that(2) have "src_url ?new \<noteq> ''#''" by simp
    ultimately have "\<exists>t\<in>set (dedupSources ?S). src_url t = src_url ?new"
      by (rule dedupSources_keeps_url)
    then show ?thesis by simp
  qed
  have none: "dedupSources ?S = []"
    if "\<forall>w\<in>set rs. \<forall>mw. mr_metadata w = Some mw \<longrightarrow>
              \<not> includes' (originalUrlOf mw) ''/en/'' \<and>
              translateTitleToEnglish dict (originalTitleOf (mr_id w) mw) =
                Str (originalTitleOf (mr_id w) mw)"
  proof -
    have "set ?S = {}"
      using that by (auto simp: set_buildSources toSource_en_chinese(1))
    then show ?thesis by (simp add: dedupSources_Nil)
  qed
  from iff form final none show ?thesis by blast
qed

text \<open>
  Claim C3 holds of the code when the dictionary maps the title to a different title,
  and fails when the Chinese and the English title are the same.  The generator writes
  \<open>titleDictionary[zhTitle] = enTitle\<close> for every post with both versions, also when
  both titles are equal; \<open>translateTitleToEnglish\<close> then returns the title it was given,
  the test \<open>translatedTitle !== originalTitle\<close> takes this for "No English version
  available", and the source is dropped, against the comment "Translation exists,
  meaning English version exists" on the other branch.  The request is for \<open>en\<close>, the
  match is retained, its URL \<open>https://your-site.com/blog/k8s\<close> does not contain \<open>/en/\<close>,
  and the dictionary has the entry \<open>Kubernetes\<close> for its title \<open>Kubernetes\<close>: the claim
  gives the source \<open>https://your-site.com/en/blog/k8s\<close>, the code gives no source,
  whatever the \<open>URL\<close> class does.
\<close>

theorem processMatches_self_mapped_title:
  "getProperty [''Kubernetes'' \<mapsto> ''Kubernetes''] ''Kubernetes'' = Some (Str ''Kubernetes'') \<and>
   \<not> includes' ''https://your-site.com/blog/k8s'' ''/en/'' \<and>
   processMatches api [''Kubernetes'' \<mapsto> ''Kubernetes''] ''en'' False
     [mkMatch ''doc1'' ''some text'' (Some ''Kubernetes'') (Some ''https://your-site.com/blog/k8s'')] =
     Inr \<lparr>contexts = ''some text'', sources = [],
          matches = [mkMatch ''doc1'' ''some text'' (Some ''Kubernetes'') (Some ''https://your-site.com/blog/k8s'')],
          usedFallback = False\<rparr>"
  by (simp add: processMatches_def validMatches_def mkMatch_def truthy_def toMetadataResults_def
      postQueryFilter_def buildContexts_def orElse_def buildSources_def map_filter_def
      toSource_def originalUrlOf_def originalTitleOf_def translateTitleToEnglish_def
      getProperty_def objectPrototypeNames_def dedupSources_def)

text \<open>
  The same match with the entry \<open>Kubernetes Basics\<close> for its title has the source the
  claim describes; with the entry \<open>Kubernetes\<close> it has none.
\<close>

theorem processMatches_self_mapped_title_witness:
  "processMatches simpleApi [''Kubernetes'' \<mapsto> ''Kubernetes Basics''] ''en'' False
     [mkMatch ''doc1'' ''some text'' (Some ''Kubernetes'') (Some ''https://your-site.com/blog/k8s'')] =
     Inr \<lparr>contexts = ''some text'',
          sources = [\<lparr>src_id = ''doc1'', src_url = ''https://your-site.com/en/blog/k8s'',
                      src_title = Str ''Kubernetes Basics'', src_source = ''doc1'',
                      hasEnglishVersion = True\<rparr>],
          matches = [mkMatch ''doc1'' ''some text'' (Some ''Kubernetes'') (Some ''https://your-site.com/blog/k8s'')],
          usedFallback = False\<rparr> \<and>
   processMatches simpleApi [''Kubernetes'' \<mapsto> ''Kubernetes''] ''en'' False
     [mkMatch ''doc1'' ''some text'' (Some ''Kubernetes'') (Some ''https://your-site.com/blog/k8s'')] =
     Inr \<lparr>contexts = ''some text'', sources = [],
          matches = [mkMatch ''doc1'' ''some text'' (Some ''Kubernetes'') (Some ''https://your-site.com/blog/k8s'')],
          usedFallback = False\<rparr>"
proof -
  have "processMatches simpleApi [''Kubernetes'' \<mapsto> ''Kubernetes Basics''] ''en'' False
     [mkMatch ''doc1'' ''some text'' (Some ''Kubernetes'') (Some ''https://your-site.com/blog/k8s'')] =
     Inr \<lparr>contexts = ''some text'',
          sources = [\<lparr>src_id = ''doc1'', src_url = ''https://your-site.com/en/blog/k8s'',
                      src_title = Str ''Kubernetes Basics'', src_source = ''doc1'',
                      hasEnglishVersion = True\<rparr>],
          matches = [mkMatch ''doc1'' ''some text'' (Some ''Kubernetes'') (Some ''https://your-site.com/blog/k8s'')],
          usedFallback = False\<rparr>"
    by (simp add: processMatches_def validMatches_def mkMatch_def truthy_def toMetadataResults_def
      postQueryFilter_def buildContexts_def orElse_def buildSources_def map_filter_def
      toSource_def originalUrlOf_def originalTitleOf_def translateTitleToEnglish_def
      getProperty_def objectPrototypeNames_def dedupSources_def
      convertUrlForLanguage_def tryConvert_def simpleApi_def simpleParse_def stripLangPrefix_def)
  with processMatches_self_mapped_title [of simpleApi] show ?thesis by simp
qed

text \<open>
  Two more places where step 5 departs from the claim.  A title that names a member of
  \<open>Object.prototype\<close> counts as translated without any entry, and the title of its
  source is that member.  And \<open>/^\/(zh|en)/\<close> has no segment boundary: a path that
  begins with \<open>/en\<close> or \<open>/zh\<close> without being under that segment loses these three
  characters.
\<close>

lemma translateTitleToEnglish_inherited:
  "translateTitleToEnglish Map.empty ''constructor'' = Inherited ''constructor''"
  "buildSources simpleApi Map.empty ''en''
     (toMetadataResults
        [mkMatch ''doc1'' ''some text'' (Some ''constructor'') (Some ''https://your-site.com/blog/c'')]) =
     [\<lparr>src_id = ''doc1'', src_url = ''https://your-site.com/en/blog/c'',
       src_title = Inherited ''constructor'', src_source = ''doc1'', hasEnglishVersion = True\<rparr>]"
  by (simp_all add: mkMatch_def truthy_def toMetadataResults_def orElse_def buildSources_def
      map_filter_def toSource_def originalUrlOf_def originalTitleOf_def translateTitleToEnglish_def
      getProperty_def objectPrototypeNames_def
      convertUrlForLanguage_def tryConvert_def simpleApi_def simpleParse_def stripLangPrefix_def)

lemma convertUrlForLanguage_no_boundary:
  "convertUrlForLanguage simpleApi ''https://your-site.com/envoy/intro'' ''en'' =
     ''https://your-site.com/envoy/intro''"
  "convertUrlForLanguage simpleApi ''https://your-site.com/zhuanlan/x'' ''en'' =
     ''https://your-site.com/enuanlan/x''"
  by (simp_all add: convertUrlForLanguage_def tryConvert_def simpleApi_def simpleParse_def
      stripLangPrefix_def)

section \<open>Properties of the selection of files\<close>

lemma zh_not_en: "prefix ''zh/'' f \<Longrightarrow> \<not> prefix ''en/'' f"
  by (cases f) auto

lemma selectFiles_snoc: "selectFiles (fs @ [f]) = selectStep (selectFiles fs) f"
  by (simp add: selectFiles_def)

lemma selectFiles_static:
  "snd (selectFiles fs) = filter (\<lambda>f. isStaticPage f \<and> prefix ''zh/'' f) fs"
proof (induction fs rule: rev_induct)
  case Nil
  show ?case by (simp add: selectFiles_def)
next
  case (snoc f fs)
  then show ?case
    by (cases "selectFiles fs") (simp add: selectFiles_snoc selectStep_def Let_def)
qed

lemma selectFiles_keys: "distinct (map fst (fst (selectFiles fs)))"
proof (induction fs rule: rev_induct)
  case Nil
  show ?case by (simp add: selectFiles_def)
next
  case (snoc f fs)
  then show ?case
    by (cases "selectFiles fs") (simp add: selectFiles_snoc selectStep_def Let_def distinct_update)
qed

lemma selectFiles_blog:
  "map_of (fst (selectFiles fs)) k =
     (case find (chineseFor k) (rev fs) of
        Some f \<Rightarrow> Some f
      | None \<Rightarrow> find (englishFor k) fs)"
proof (induction fs rule: rev_induct)
  case Nil
  show ?case by (simp add: selectFiles_def)
next
  case (snoc f fs)
  obtain b s where sel: "selectFiles fs = (b, s)" by (cases "selectFiles fs")
  with snoc have ih: "map_of b k =
     (case find (chineseFor k) (rev fs) of Some f \<Rightarrow> Some f | None \<Rightarrow> find (englishFor k) fs)"
    by simp
  have find_app: "find P (fs @ [f]) = (case find P fs of Some g \<Rightarrow> Some g | None \<Rightarrow> if P f then Some f else None)" for P
    by (induction fs) auto
  consider (static) "isStaticPage f" | (other) "\<not> isStaticPage f" "\<not> includes' f ''/blog/''"
    | (zh) "isBlogPost f" "prefix ''zh/'' f"
    | (en) "isBlogPost f" "\<not> prefix ''zh/'' f" "prefix ''en/'' f"
    | (none) "isBlogPost f" "\<not> prefix ''zh/'' f" "\<not> prefix ''en/'' f"
    by (auto simp: isBlogPost_def)
  then show ?case
  proof cases
    case static
    then have "\<not> chineseFor k f" "\<not> englishFor k f"
      by (simp_all add: chineseFor_def englishFor_def isBlogPost_def)
    with static sel ih show ?thesis
      by (simp add: selectFiles_snoc selectStep_def find_app split: option.splits)
  next
    case other
    then have "\<not> chineseFor k f" "\<not> englishFor k f"
      by (simp_all add: chineseFor_def englishFor_def isBlogPost_def)
    with other sel ih show ?thesis
      by (simp add: selectFiles_snoc selectStep_def find_app split: option.splits)
  next
    case zh
    then have c: "chineseFor k f \<longleftrightarrow> postPathOf f = k" and e: "\<not> englishFor k f"
      by (simp_all add: chineseFor_def englishFor_def zh_not_en)
    from zh sel have step: "fst (selectFiles (fs @ [f])) = AList.update (postPathOf f) f b"
      by (simp add: selectFiles_snoc selectStep_def isBlogPost_def Let_def)
    show ?thesis
      using ih c e by (simp add: step update_conv' find_app split: option.splits)
  next
    case en
    then have c: "\<not> chineseFor k f" and e: "englishFor k f \<longleftrightarrow> postPathOf f = k"
      by (simp_all add: chineseFor_def englishFor_def)
    from en sel have step: "fst (selectFiles (fs @ [f])) =
        (if map_of b (postPathOf f) = None then AList.update (postPathOf f) f b else b)"
      by (simp add: selectFiles_snoc selectStep_def isBlogPost_def Let_def)
    show ?thesis
      using ih c e by (auto simp: step update_conv' find_app split: option.splits)
  next
    case none
    then have "\<not> chineseFor k f" "\<not> englishFor k f"
      by (simp_all add: chineseFor_def englishFor_def)
    with none sel ih show ?thesis
      by (simp add: selectFiles_snoc selectStep_def isBlogPost_def Let_def find_app split: option.splits)
  qed
qed


lemma selectFiles_entry:
  assumes "(k, f) \<in> set (fst (selectFiles fs))"
  shows "f \<in> set fs \<and> isBlogPost f \<and> postPathOf f = k \<and>
         (chineseFor k f \<or> (englishFor k f \<and> \<not> (\<exists>g\<in>set fs. chineseFor k g)))"
proof -
  from assms have m: "map_of (fst (selectFiles fs)) k = Some f"
    using selectFiles_keys [of fs] by simp
  show ?thesis
  proof (cases "find (chineseFor k) (rev fs)")
    case None
    with m have e: "find (englishFor k) fs = Some f" by (simp add: selectFiles_blog)
    from None have "\<not> (\<exists>g\<in>set fs. chineseFor k g)"
      using find_exists [of "rev fs" "chineseFor k"] by auto
    moreover from e have "englishFor k f" "f \<in> set fs"
      by (auto dest: find_SomeD)
    ultimately show ?thesis by (auto simp: englishFor_def)
  next
    case (Some g)
    with m have "g = f" by (simp add: selectFiles_blog)
    with Some have "chineseFor k f" "f \<in> set (rev fs)"
      by (auto dest: find_SomeD)
    then show ?thesis by (auto simp: chineseFor_def)
  qed
qed

lemma selectFiles_chinese:
  assumes "\<exists>g\<in>set fs. chineseFor k g"
  shows "\<exists>f. (k, f) \<in> set (fst (selectFiles fs)) \<and> chineseFor k f"
proof -
  from assms obtain f where f: "find (chineseFor k) (rev fs) = Some f"
    using find_exists [of "rev fs" "chineseFor k"] by auto
  then have "map_of (fst (selectFiles fs)) k = Some f" by (simp add: selectFiles_blog)
  then have "(k, f) \<in> set (fst (selectFiles fs))" by (rule map_of_SomeD)
  moreover from f have "chineseFor k f" by (auto dest: find_SomeD)
  ultimately show ?thesis by blast
qed

lemma selectFiles_english:
  assumes "\<exists>g\<in>set fs. englishFor k g" and "\<not> (\<exists>g\<in>set fs. chineseFor k g)"
  shows "\<exists>f. (k, f) \<in> set (fst (selectFiles fs)) \<and> englishFor k f"
proof -
  from assms(2) have n: "find (chineseFor k) (rev fs) = None"
    using find_none [of "rev fs" "chineseFor k"] by auto
  from assms(1) obtain f where f: "find (englishFor k) fs = Some f"
    using find_exists [of fs "englishFor k"] by auto
  with n have "map_of (fst (selectFiles fs)) k = Some f" by (simp add: selectFiles_blog)
  then have "(k, f) \<in> set (fst (selectFiles fs))" by (rule map_of_SomeD)
  moreover from f have "englishFor k f" by (auto dest: find_SomeD)
  ultimately show ?thesis by blast
qed

lemma set_filesToProcess:
  "set (filesToProcess fs) =
     snd ` set (fst (selectFiles fs)) \<union> {f \<in> set fs. isStaticPage f \<and> prefix ''zh/'' f}"
  using selectFiles_static [of fs]
  by (cases "selectFiles fs") (auto simp: filesToProcess_def)

lemma blog_in_output:
  assumes "f \<in> set (filesToProcess fs)" and "isBlogPost f"
  shows "(postPathOf f, f) \<in> set (fst (selectFiles fs))"
proof -
  from assms obtain k where "(k, f) \<in> set (fst (selectFiles fs))"
    by (auto simp: set_filesToProcess isBlogPost_def)
  moreover from selectFiles_entry [OF this] have "postPathOf f = k" by simp
  ultimately show ?thesis by simp
qed

lemma distinct_filesToProcess:
  assumes "distinct fs"
  shows "distinct (filesToProcess fs)"
proof -
  obtain b s where sel: "selectFiles fs = (b, s)" by (cases "selectFiles fs")
  have keys: "distinct (map fst b)" using selectFiles_keys [of fs] sel by simp
  have ent: "postPathOf f = k \<and> isBlogPost f" if "(k, f) \<in> set b" for k f
    using selectFiles_entry [of k f fs] that sel by simp
  have "inj_on snd (set b)"
  proof (rule inj_onI)
    fix x y assume x: "x \<in> set b" and y: "y \<in> set b" and eq: "snd x = snd y"
    from x have "postPathOf (snd x) = fst x" using ent [of "fst x" "snd x"] by simp
    moreover from y have "postPathOf (snd y) = fst y" using ent [of "fst y" "snd y"] by simp
    ultimately have "fst x = fst y" using eq by simp
    with eq show "x = y" by (simp add: prod_eq_iff)
  qed
  moreover have "distinct b" using keys by (simp add: distinct_map)
  ultimately have d1: "distinct (map snd b)" by (simp add: distinct_map)
  have s: "s = filter (\<lambda>f. isStaticPage f \<and> prefix ''zh/'' f) fs"
    using selectFiles_static [of fs] sel by simp
  with assms have d2: "distinct s" by simp
  have "set (map snd b) \<inter> set s = {}"
    using ent s by (auto simp: isBlogPost_def)
  with d1 d2 sel show ?thesis by (simp add: filesToProcess_def)
qed

lemma isStaticPage_lang: "isStaticPage (''zh/'' @ p) = isStaticPage (''en/'' @ p)"
  by (simp add: isStaticPage_def)

lemma includes_blog_lang: "includes' (''zh/'' @ p) ''/blog/'' = includes' (''en/'' @ p) ''/blog/''"
  by simp

lemma postPathOf_lang: "postPathOf (''zh/blog/'' @ q) = postPathOf (''en/blog/'' @ q)"
  by (simp add: postPathOf_def)

text \<open>
  When the blog candidates are under \<open>zh/blog/\<close> or \<open>en/blog/\<close>, as the patterns of
  \<open>main\<close> make them, the selection never holds the same path in both languages.
\<close>

lemma one_language_per_path:
  assumes cands: "\<forall>f\<in>set fs. isBlogPost f \<longrightarrow> prefix ''zh/blog/'' f \<or> prefix ''en/blog/'' f"
    and f: "''zh/'' @ p \<in> set (filesToProcess fs)"
  shows "''en/'' @ p \<notin> set (filesToProcess fs)"
proof
  let ?f = "''zh/'' @ p" and ?g = "''en/'' @ p"
  assume g: "?g \<in> set (filesToProcess fs)"
  have nz: "\<not> prefix ''zh/'' ?g" by simp
  have "(k, ?g) \<notin> set (fst (selectFiles fs))" if "isStaticPage ?g" for k
    using selectFiles_entry [of k ?g fs] that by (auto simp: isBlogPost_def)
  with g nz have ns: "\<not> isStaticPage ?g"
    by (auto simp: set_filesToProcess)
  with g obtain k where k: "(k, ?g) \<in> set (fst (selectFiles fs))"
    by (auto simp: set_filesToProcess)
  from selectFiles_entry [OF k] nz
  have gb: "isBlogPost ?g" and gk: "postPathOf ?g = k" and gfs: "?g \<in> set fs"
    and none: "\<not> (\<exists>h\<in>set fs. chineseFor k h)"
    by (auto simp: chineseFor_def)
  from cands gfs gb have "prefix ''en/blog/'' ?g" by auto
  then obtain q where q: "p = ''blog/'' @ q" by (auto simp: prefix_def)
  have "isBlogPost ?f"
    using gb isStaticPage_lang [of p] includes_blog_lang [of p] by (simp add: isBlogPost_def)
  moreover have "postPathOf ?f = k"
    using gk postPathOf_lang [of q] by (simp add: q)
  ultimately have "chineseFor k ?f" by (simp add: chineseFor_def)
  moreover have "?f \<in> set fs"
    using f selectFiles_entry [of _ ?f fs] by (auto simp: set_filesToProcess)
  ultimately show False using none by blast
qed

text \<open>
  Claim C6.  Every selected file is a candidate; a file matched as a static page is
  selected exactly when it is Chinese (\<open>zh/\<close>), so English static pages are dropped
  whether or not a Chinese one exists.  Two selected blog posts never share a key.  For
  every key with a Chinese blog post among the candidates, a Chinese post of that key is
  selected and no English one; for every key with English posts only, an English post
  of that key is selected.  Candidates without repetition give a selection without
  repetition, and with the blog candidates under \<open>zh/blog/\<close> or \<open>en/blog/\<close> no path is
  selected in both languages.
\<close>

theorem filesToProcess_selection:
  "(\<forall>f\<in>set (filesToProcess fs). f \<in> set fs \<and> (isStaticPage f \<longrightarrow> prefix ''zh/'' f)) \<and>
   (\<forall>f\<in>set fs. isStaticPage f \<and> prefix ''zh/'' f \<longrightarrow> f \<in> set (filesToProcess fs)) \<and>
   (\<forall>f\<in>set (filesToProcess fs). \<forall>g\<in>set (filesToProcess fs).
      isBlogPost f \<and> isBlogPost g \<and> postPathOf f = postPathOf g \<longrightarrow> f = g) \<and>
   (\<forall>k. (\<exists>g\<in>set fs. chineseFor k g) \<longrightarrow>
      (\<exists>f\<in>set (filesToProcess fs). chineseFor k f) \<and>
      (\<forall>f\<in>set (filesToProcess fs). \<not> englishFor k f)) \<and>
   (\<forall>k. (\<exists>g\<in>set fs. englishFor k g) \<and> \<not> (\<exists>g\<in>set fs. chineseFor k g) \<longrightarrow>
      (\<exists>f\<in>set (filesToProcess fs). englishFor k f)) \<and>
   (distinct fs \<longrightarrow> distinct (filesToProcess fs)) \<and>
   ((\<forall>f\<in>set fs. isBlogPost f \<longrightarrow> prefix ''zh/blog/'' f \<or> prefix ''en/blog/'' f) \<longrightarrow>
      (\<forall>p. ''zh/'' @ p \<in> set (filesToProcess fs) \<longrightarrow>
           ''en/'' @ p \<notin> set (filesToProcess fs)))"
proof (intro conjI ballI allI impI)
  fix f assume f: "f \<in> set (filesToProcess fs)"
  show "f \<in> set fs"
    using f selectFiles_entry [of _ f fs] by (auto simp: set_filesToProcess)
  show "prefix ''zh/'' f" if st: "isStaticPage f"
  proof -
    have "(k, f) \<notin> set (fst (selectFiles fs))" for k
      using selectFiles_entry [of k f fs] st by (auto simp: isBlogPost_def)
    with f show ?thesis by (auto simp: set_filesToProcess)
  qed
next
  fix f assume "f \<in> set fs" "isStaticPage f \<and> prefix ''zh/'' f"
  then show "f \<in> set (filesToProcess fs)" by (simp add: set_filesToProcess)
next
  fix f g
  assume f: "f \<in> set (filesToProcess fs)" and g: "g \<in> set (filesToProcess fs)"
    and h: "isBlogPost f \<and> isBlogPost g \<and> postPathOf f = postPathOf g"
  from blog_in_output [OF f] h have "map_of (fst (selectFiles fs)) (postPathOf f) = Some f"
    using selectFiles_keys [of fs] by simp
  moreover from blog_in_output [OF g] h have "map_of (fst (selectFiles fs)) (postPathOf f) = Some g"
    using selectFiles_keys [of fs] by simp
  ultimately show "f = g" by simp
next
  fix k assume c: "\<exists>g\<in>set fs. chineseFor k g"
  from selectFiles_chinese [OF c] show "\<exists>f\<in>set (filesToProcess fs). chineseFor k f"
    by (force simp: set_filesToProcess)
next
  fix k f assume c: "\<exists>g\<in>set fs. chineseFor k g" and f: "f \<in> set (filesToProcess fs)"
  show "\<not> englishFor k f"
  proof
    assume e: "englishFor k f"
    then have "isBlogPost f" "postPathOf f = k" by (simp_all add: englishFor_def)
    with blog_in_output [OF f] have "(k, f) \<in> set (fst (selectFiles fs))" by simp
    from selectFiles_entry [OF this] c have "chineseFor k f" by blast
    with e show False by (auto simp: chineseFor_def englishFor_def dest: zh_not_en)
  qed
next
  fix k assume "(\<exists>g\<in>set fs. englishFor k g) \<and> \<not> (\<exists>g\<in>set fs. chineseFor k g)"
  then have "\<exists>f. (k, f) \<in> set (fst (selectFiles fs)) \<and> englishFor k f"
    using selectFiles_english by blast
  then show "\<exists>f\<in>set (filesToProcess fs). englishFor k f"
    by (force simp: set_filesToProcess)
next
  assume "distinct fs"
  then show "distinct (filesToProcess fs)" by (rule distinct_filesToProcess)
next
  fix p
  assume "\<forall>f\<in>set fs. isBlogPost f \<longrightarrow> prefix ''zh/blog/'' f \<or> prefix ''en/blog/'' f"
    and "''zh/'' @ p \<in> set (filesToProcess fs)"
  then show "''en/'' @ p \<notin> set (filesToProcess fs)" by (rule one_language_per_path)
qed


text \<open>A post in both languages, a post in English only, and two static pages.\<close>

theorem filesToProcess_selection_witness:
  "(\<exists>f\<in>set (filesToProcess [''en/blog/p/index.md'', ''zh/blog/p/index.md'', ''en/blog/q/index.md'',
        ''en/about/_index.md'', ''zh/contact/_index.md'']). chineseFor ''p'' f) \<and>
   (\<exists>f\<in>set (filesToProcess [''en/blog/p/index.md'', ''zh/blog/p/index.md'', ''en/blog/q/index.md'',
        ''en/about/_index.md'', ''zh/contact/_index.md'']). englishFor ''q'' f) \<and>
   \<not> englishFor ''p'' ''zh/blog/p/index.md'' \<and>
   ''en/blog/p/index.md'' \<notin> set (filesToProcess [''en/blog/p/index.md'', ''zh/blog/p/index.md'',
        ''en/blog/q/index.md'', ''en/about/_index.md'', ''zh/contact/_index.md'']) \<and>
   ''en/about/_index.md'' \<notin> set (filesToProcess [''en/blog/p/index.md'', ''zh/blog/p/index.md'',
        ''en/blog/q/index.md'', ''en/about/_index.md'', ''zh/contact/_index.md'']) \<and>
   ''zh/contact/_index.md'' \<in> set (filesToProcess [''en/blog/p/index.md'', ''zh/blog/p/index.md'',
        ''en/blog/q/index.md'', ''en/about/_index.md'', ''zh/contact/_index.md'']) \<and>
   distinct (filesToProcess [''en/blog/p/index.md'', ''zh/blog/p/index.md'', ''en/blog/q/index.md'',
        ''en/about/_index.md'', ''zh/contact/_index.md''])"
proof -
  let ?fs = "[''en/blog/p/index.md'', ''zh/blog/p/index.md'', ''en/blog/q/index.md'',
        ''en/about/_index.md'', ''zh/contact/_index.md'']"
  have zp: "chineseFor ''p'' ''zh/blog/p/index.md''" by code_simp
  have ep: "englishFor ''p'' ''en/blog/p/index.md''" by code_simp
  have eq: "englishFor ''q'' ''en/blog/q/index.md''" by code_simp
  have nq: "\<not> (\<exists>g\<in>set ?fs. chineseFor ''q'' g)" by code_simp
  have nz: "\<not> englishFor ''p'' ''zh/blog/p/index.md''" by code_simp
  have sa: "isStaticPage ''en/about/_index.md''" "\<not> prefix ''zh/'' ''en/about/_index.md''" by code_simp+
  have sc: "isStaticPage ''zh/contact/_index.md''" "prefix ''zh/'' ''zh/contact/_index.md''" by code_simp+
  have d: "distinct ?fs" by simp
  have cf: "\<forall>f\<in>set ?fs. isBlogPost f \<longrightarrow> prefix ''zh/blog/'' f \<or> prefix ''en/blog/'' f"
    by code_simp
  have m: "''zh/blog/p/index.md'' \<in> set ?fs" "''en/blog/q/index.md'' \<in> set ?fs"
    "''zh/contact/_index.md'' \<in> set ?fs" by simp_all
  from filesToProcess_selection [of ?fs] zp ep eq nq nz sa sc d cf m
  show ?thesis by blast
qed

section \<open>Properties of \<open>toUrlFromPath\<close>\<close>

text \<open>The cases of \<open>tests/unit/ingest.test.ts\<close>.\<close>

lemma toUrlFromPath_tests:
  "toUrlFromPath originURL ''https://your-site.com'' ''zh/blog/some-post/index.md'' =
     \<lparr>res_url = ''https://your-site.com/blog/some-post'', res_language = ''zh''\<rparr>"
  "toUrlFromPath originURL ''https://your-site.com'' ''en/blog/some-post/index.md'' =
     \<lparr>res_url = ''https://your-site.com/en/blog/some-post'', res_language = ''en''\<rparr>"
  "toUrlFromPath originURL ''https://your-site.com'' ''zh/about/_index.md'' =
     \<lparr>res_url = ''https://your-site.com/about'', res_language = ''zh''\<rparr>"
  "toUrlFromPath originURL ''https://your-site.com'' ''en/about/_index.md'' =
     \<lparr>res_url = ''https://your-site.com/en/about'', res_language = ''en''\<rparr>"
  by code_simp+

text \<open>
  For a slug that is one path segment and does not begin with \<open>index\<close>, the path
  handed to the URL constructor is the one the tests expect.
\<close>

lemma stripMd_md: "stripMd (x @ ''.md'') = x"
  by (simp add: stripMd_def)

lemma slashes_append: "slashes (a @ b) = slashes a @ slashes b"
  by (simp add: slashes_def)

lemma slashes_id: "\<forall>c\<in>set s. c \<noteq> CHR 0x5C \<Longrightarrow> slashes s = s"
  by (simp add: slashes_def map_idI)

lemma replaceFirst_skip:
  assumes "\<forall>c\<in>set xs. c \<noteq> CHR ''/''"
  shows "replaceFirst (xs @ ys) (CHR ''/'' # pat) rep = xs @ replaceFirst ys (CHR ''/'' # pat) rep"
  using assms by (induction xs) auto

lemma prefix_overlap:
  assumes "prefix p (xs @ ys)" and "\<not> prefix p xs"
  shows "\<exists>us. p = xs @ us \<and> us \<noteq> [] \<and> prefix us ys"
  using assms by (auto simp: prefix_append)

lemma no_index_prefix:
  assumes "\<forall>c\<in>set slug. c \<noteq> CHR ''/''" and "\<not> prefix ''index'' slug"
  shows "\<not> prefix ''index'' (slug @ ''/index'')"
proof
  assume "prefix ''index'' (slug @ ''/index'')"
  from prefix_overlap [OF this assms(2)]
  obtain us where p: "''index'' = slug @ us" and ne: "us \<noteq> []" and pre: "prefix us ''/index''"
    by blast
  from ne pre have "hd us = CHR ''/''" by (cases us) auto
  with ne have "CHR ''/'' \<in> set us" by (cases us) auto
  then have "CHR ''/'' \<in> set (slug @ us)" by simp
  with p have "CHR ''/'' \<in> set ''index''" by simp
  then show False by simp
qed


lemma collapseSlashes_segment:
  assumes "\<forall>c\<in>set slug. c \<noteq> CHR ''/''"
  shows "collapseSlashes (slug @ ''/'') = slug @ ''/''"
  using assms
proof (induction slug)
  case Nil
  show ?case by simp
next
  case (Cons c cs)
  then show ?case by (cases cs) auto
qed

lemma collapseSlashes_Cons:
  "a \<noteq> CHR ''/'' \<Longrightarrow> collapseSlashes (a # r) = a # collapseSlashes r"
  by (cases r) auto

lemma stripTrailingSlash_snoc: "stripTrailingSlash (x @ ''/'') = x"
  by (simp add: stripTrailingSlash_def)

lemma collapseSlashes_blog:
  assumes ne: "slug \<noteq> []" and s1: "\<forall>c\<in>set slug. c \<noteq> CHR ''/''"
  shows "collapseSlashes (''/blog/'' @ slug @ ''/'') = ''/blog/'' @ slug @ ''/''"
    and "collapseSlashes (''/en/blog/'' @ slug @ ''/'') = ''/en/blog/'' @ slug @ ''/''"
proof -
  obtain c cs where sl: "slug = c # cs" using ne by (cases slug) auto
  with s1 have c: "c \<noteq> CHR ''/''" by simp
  have "collapseSlashes (''/blog/'' @ slug @ ''/'') = ''/blog/'' @ collapseSlashes (slug @ ''/'')"
    using c by (simp add: sl)
  then show "collapseSlashes (''/blog/'' @ slug @ ''/'') = ''/blog/'' @ slug @ ''/''"
    by (simp add: collapseSlashes_segment [OF s1])
  have "collapseSlashes (''/en/blog/'' @ slug @ ''/'') = ''/en/blog/'' @ collapseSlashes (slug @ ''/'')"
    using c by (simp add: sl)
  then show "collapseSlashes (''/en/blog/'' @ slug @ ''/'') = ''/en/blog/'' @ slug @ ''/''"
    by (simp add: collapseSlashes_segment [OF s1])
qed

lemma cleanPathOf_blog:
  assumes ne: "slug \<noteq> []"
    and seg: "\<forall>c\<in>set slug. c \<noteq> CHR ''/'' \<and> c \<noteq> CHR 0x5C"
    and ni: "\<not> prefix ''index'' slug"
  shows "cleanPathOf (''zh/blog/'' @ slug @ ''/index.md'') = ''zh/blog/'' @ slug @ ''/''"
    and "cleanPathOf (''en/blog/'' @ slug @ ''/index.md'') = ''en/blog/'' @ slug @ ''/''"
proof -
  from seg have s1: "\<forall>c\<in>set slug. c \<noteq> CHR ''/''" and s2: "\<forall>c\<in>set slug. c \<noteq> CHR 0x5C"
    by auto
  have sl: "slashes (l @ slug @ ''/index.md'') = slashes l @ slug @ ''/index.md''" for l
    using slashes_id [OF s2] by (simp add: slashes_append) (simp add: slashes_def)
  have md: "stripMd (l @ slug @ ''/index.md'') = l @ slug @ ''/index''" for l
    using stripMd_md [of "l @ slug @ ''/index''"] by simp
  have nx: "\<not> prefix ''index'' (slug @ ''/index'')"
    using s1 ni by (rule no_index_prefix)
  have rf: "replaceFirst (slug @ ''/index'') ''/index'' ''/'' = slug @ ''/''"
    using replaceFirst_skip [OF s1, of "''/index''" "''index''" "''/''"] by simp
  have su: "\<not> suffix ''/_index'' (l @ slug @ ''/index'')" for l
    by (simp add: suffix_to_prefix)
  have si: "suffix ''/index'' (l @ slug @ ''/index'')" for l
    by (simp add: suffix_to_prefix)
  show "cleanPathOf (''zh/blog/'' @ slug @ ''/index.md'') = ''zh/blog/'' @ slug @ ''/''"
    using nx rf su [of "''zh/blog/''"] si [of "''zh/blog/''"] md [of "''zh/blog/''"]
      sl [of "''zh/blog/''"]
    by (simp add: cleanPathOf_def slashes_def stripLeadingSlash_def)
  show "cleanPathOf (''en/blog/'' @ slug @ ''/index.md'') = ''en/blog/'' @ slug @ ''/''"
    using nx rf su [of "''en/blog/''"] si [of "''en/blog/''"] md [of "''en/blog/''"]
      sl [of "''en/blog/''"]
    by (simp add: cleanPathOf_def slashes_def stripLeadingSlash_def)
qed

lemma urlPathOf_blog:
  assumes ne: "slug \<noteq> []"
    and seg: "\<forall>c\<in>set slug. c \<noteq> CHR ''/'' \<and> c \<noteq> CHR 0x5C"
    and ni: "\<not> prefix ''index'' slug"
  shows "urlPathOf (''zh/blog/'' @ slug @ ''/index.md'') = ''/blog/'' @ slug"
    and "urlPathOf (''en/blog/'' @ slug @ ''/index.md'') = ''/en/blog/'' @ slug"
proof -
  from seg have s1: "\<forall>c\<in>set slug. c \<noteq> CHR ''/''" by auto
  have f1: "finalPathOf (''zh/blog/'' @ slug @ ''/'') = ''blog/'' @ slug @ ''/''"
    by (simp add: finalPathOf_def)
  have f2: "finalPathOf (''en/blog/'' @ slug @ ''/'') = ''en/blog/'' @ slug @ ''/''"
    by (simp add: finalPathOf_def)
  have c1: "collapseSlashes (''/'' @ ''blog/'' @ slug @ ''/'') = ''/blog/'' @ slug @ ''/''"
    using collapseSlashes_blog(1) [OF ne s1] by simp
  have c2: "collapseSlashes (''/'' @ ''en/blog/'' @ slug @ ''/'') = ''/en/blog/'' @ slug @ ''/''"
    using collapseSlashes_blog(2) [OF ne s1] by simp
  have t1: "stripTrailingSlash (''/blog/'' @ slug @ ''/'') = ''/blog/'' @ slug"
    using stripTrailingSlash_snoc [of "''/blog/'' @ slug"] by simp
  have t2: "stripTrailingSlash (''/en/blog/'' @ slug @ ''/'') = ''/en/blog/'' @ slug"
    using stripTrailingSlash_snoc [of "''/en/blog/'' @ slug"] by simp
  show "urlPathOf (''zh/blog/'' @ slug @ ''/index.md'') = ''/blog/'' @ slug"
    unfolding urlPathOf_def cleanPathOf_blog(1) [OF assms] f1 c1 t1 by simp
  show "urlPathOf (''en/blog/'' @ slug @ ''/index.md'') = ''/en/blog/'' @ slug"
    unfolding urlPathOf_def cleanPathOf_blog(2) [OF assms] f2 c2 t2 by simp
qed

lemma toUrlFromPath_blog_segment:
  assumes "slug \<noteq> []"
    and "\<forall>c\<in>set slug. c \<noteq> CHR ''/'' \<and> c \<noteq> CHR 0x5C"
    and "\<not> prefix ''index'' slug"
  shows "toUrlFromPath newURL base (''zh/blog/'' @ slug @ ''/index.md'') =
           \<lparr>res_url = newURL (''/blog/'' @ slug) base, res_language = ''zh''\<rparr>"
    and "toUrlFromPath newURL base (''en/blog/'' @ slug @ ''/index.md'') =
           \<lparr>res_url = newURL (''/en/blog/'' @ slug) base, res_language = ''en''\<rparr>"
  unfolding toUrlFromPath_def urlPathOf_blog [OF assms] cleanPathOf_blog [OF assms]
  by simp_all

text \<open>
  Claim C7 fails on a slug that begins with \<open>index\<close>: after \<open>endsWith('/index')\<close>
  the call \<open>replace('/index', '/')\<close> replaces the first occurrence of \<open>/index\<close>, which
  is the start of the slug and not the end of the path.  For
  \<open>zh/blog/index-funds/index.md\<close> the claim gives \<open>/blog/index-funds\<close>.
\<close>

theorem toUrlFromPath_index_slug:
  "toUrlFromPath originURL ''https://your-site.com'' ''zh/blog/index-funds/index.md'' =
     \<lparr>res_url = ''https://your-site.com/blog/-funds/index'', res_language = ''zh''\<rparr> \<and>
   toUrlFromPath originURL ''https://your-site.com'' ''en/blog/index-funds/index.md'' =
     \<lparr>res_url = ''https://your-site.com/en/blog/-funds/index'', res_language = ''en''\<rparr>"
  by code_simp

theorem toUrlFromPath_index_slug_witness:
  "res_url (toUrlFromPath originURL ''https://your-site.com'' ''zh/blog/index-funds/index.md'') \<noteq>
     ''https://your-site.com'' @ ''/blog/'' @ ''index-funds'' \<and>
   res_url (toUrlFromPath originURL ''https://your-site.com'' ''en/blog/index-funds/index.md'') \<noteq>
     ''https://your-site.com'' @ ''/'' @ ''en'' @ ''/blog/'' @ ''index-funds''"
  using toUrlFromPath_index_slug by simp

end
